theory Spec2Isabelle
  imports Complex_Main "HOL-Library.Sublist" "HOL-Library.Word" "HOL-Library.Multiset"
begin

section \<open>Python values\<close>

text \<open>
  A Python \<open>str\<close> is a sequence of Unicode code points. The comment texts and keyword
  tables of \<open>chatgpt_cleaning_check.py\<close> are Japanese, and the regular expressions count
  characters (\<open>.{0,12}\<close>), so a string is modelled as the list of its code points.
  \<open>ascii\<close> embeds an ASCII literal.
\<close>

type_synonym ustr = "nat list"

type_synonym bytes = "8 word list"

definition ascii :: "string \<Rightarrow> ustr" where
  "ascii s = map of_char s"

text \<open>
  An exception is its class name together with \<open>str(e)\<close>. The message of an exception
  that the program never formats is left empty.
\<close>

datatype exn = PyExn string ustr

fun str_exn :: "exn \<Rightarrow> ustr" where
  "str_exn (PyExn c m) = m"

definition AttributeError :: exn where "AttributeError = PyExn ''AttributeError'' []"
definition TypeError :: exn where "TypeError = PyExn ''TypeError'' []"
definition ValueError :: exn where "ValueError = PyExn ''ValueError'' []"
definition OverflowError :: exn where "OverflowError = PyExn ''OverflowError'' []"
definition RuntimeError :: "ustr \<Rightarrow> exn" where "RuntimeError m = PyExn ''RuntimeError'' m"

text \<open>
  What \<open>json.loads\<close> returns. A dictionary is kept as the list of its items in insertion
  order (keys distinct); \<open>d.get(k)\<close> is \<open>map_of\<close>, \<open>d.values()\<close> is \<open>map snd\<close>.
  A float is modelled by the number it denotes, and a float literal of the source by the
  number its decimal text names; comparisons are exact.
\<close>

datatype pyval =
    PNone
  | PBool bool
  | PInt int
  | PFloat real
  | PStr ustr
  | PList "pyval list"
  | PDict "(ustr \<times> pyval) list"

section \<open>Text operations\<close>

text \<open>\<open>sep.join(xs)\<close>.\<close>

fun join :: "ustr \<Rightarrow> ustr list \<Rightarrow> ustr" where
  "join sep [] = []"
| "join sep [x] = x"
| "join sep (x # y # ys) = x @ sep @ join sep (y # ys)"

text \<open>
  \<open>str.isspace\<close> of one character, and the line boundaries of \<open>str.splitlines\<close>.
\<close>

definition is_space :: "nat \<Rightarrow> bool" where
  "is_space c \<longleftrightarrow>
     (0x09 \<le> c \<and> c \<le> 0x0D) \<or> (0x1C \<le> c \<and> c \<le> 0x20) \<or> c = 0x85 \<or> c = 0xA0
     \<or> c = 0x1680 \<or> (0x2000 \<le> c \<and> c \<le> 0x200A) \<or> c = 0x2028 \<or> c = 0x2029
     \<or> c = 0x202F \<or> c = 0x205F \<or> c = 0x3000"

definition is_linebreak :: "nat \<Rightarrow> bool" where
  "is_linebreak c \<longleftrightarrow>
     (0x0A \<le> c \<and> c \<le> 0x0D) \<or> (0x1C \<le> c \<and> c \<le> 0x1E) \<or> c = 0x85
     \<or> c = 0x2028 \<or> c = 0x2029"

definition strip :: "ustr \<Rightarrow> ustr" where
  "strip s = rev (dropWhile is_space (rev (dropWhile is_space s)))"

text \<open>
  \<open>str.splitlines()\<close>: the first argument is the current line, reversed. \<open>\r\n\<close> is one
  boundary, and a text that ends with a boundary has no empty last line.
\<close>

fun splitlines_from :: "ustr \<Rightarrow> ustr \<Rightarrow> ustr list" where
  "splitlines_from cur [] = (if cur = [] then [] else [rev cur])"
| "splitlines_from cur [c] = (if is_linebreak c then [rev cur] else [rev (c # cur)])"
| "splitlines_from cur (c # d # cs) =
     (if c = 0x0D \<and> d = 0x0A then rev cur # splitlines_from [] cs
      else if is_linebreak c then rev cur # splitlines_from [] (d # cs)
      else splitlines_from (c # cur) (d # cs))"

definition splitlines :: "ustr \<Rightarrow> ustr list" where
  "splitlines t = splitlines_from [] t"

text \<open>
  \<open>_split_lines\<close>, the local function of \<open>_analyze_one\<close>:
  \<^verbatim>\<open>[ln.strip() for ln in (t or "").splitlines() if ln.strip()]\<close>.
\<close>

definition split_lines :: "ustr \<Rightarrow> ustr list" where
  "split_lines t = map strip (filter (\<lambda>ln. strip ln \<noteq> []) (splitlines t))"

section \<open>The regular expressions of the comment rules\<close>

text \<open>
  The patterns of the source use three constructs only: an alternation of literals
  (\<open>KW\<close>, \<open>NEG\<close>, \<open>POS\<close>), the gap \<open>.{0,12}\<close>, and a top-level \<open>|\<close> between two
  sequences. \<open>.\<close> is compiled without \<open>re.DOTALL\<close>, so it matches every character
  except the line feed (code point 10).

  \<open>rx_step r s\<close> lists what is left of \<open>s\<close> after each way \<open>r\<close> matches at its start;
  \<open>search p s\<close> is the truth value of \<open>p.search(s)\<close>: a match at some start position.
\<close>

datatype rx = Lits "ustr list" | Dots nat

fun dots :: "nat \<Rightarrow> ustr \<Rightarrow> ustr list" where
  "dots n [] = [[]]"
| "dots n (c # cs) = (c # cs) # (if n = 0 \<or> c = 10 then [] else dots (n - 1) cs)"

fun rx_step :: "rx \<Rightarrow> ustr \<Rightarrow> ustr list" where
  "rx_step (Lits ws) s = map (\<lambda>w. drop (length w) s) (filter (\<lambda>w. prefix w s) ws)"
| "rx_step (Dots n) s = dots n s"

fun seq_ends :: "rx list \<Rightarrow> ustr \<Rightarrow> ustr list" where
  "seq_ends [] s = [s]"
| "seq_ends (r # rs) s = concat (map (seq_ends rs) (rx_step r s))"

definition match_here :: "rx list list \<Rightarrow> ustr \<Rightarrow> bool" where
  "match_here p s = list_ex (\<lambda>alt. seq_ends alt s \<noteq> []) p"

fun search :: "rx list list \<Rightarrow> ustr \<Rightarrow> bool" where
  "search p [] = match_here p []"
| "search p (c # cs) = (match_here p (c # cs) \<or> search p cs)"

text \<open>
  The keyword tables, in the order of the source. \<open>KW\<close>: kami-no-ke, mouhatsu, nukege
  (hair), hokori in hiragana, in katakana and as one kanji (dust). \<open>NEG\<close>: the fifteen
  negation endings from nai to kakunin-dekimasen. \<open>POS\<close>: the twelve phrases from seiketsu
  (clean) to fushizen-sa-wa-kanjirarenai.
\<close>

definition KW :: "ustr list" where
  "KW = [[0x9AEA, 0x306E, 0x6BDB], [0x6BDB, 0x9AEA], [0x629C, 0x3051, 0x6BDB],
         [0x307B, 0x3053, 0x308A], [0x30DB, 0x30B3, 0x30EA], [0x57C3]]"

definition NEG :: "ustr list" where
  "NEG = [[0x306A, 0x3044],
          [0x3042, 0x308A, 0x307E, 0x305B, 0x3093],
          [0x7121, 0x3057],
          [0x306A, 0x3057],
          [0x898B, 0x5F53, 0x305F, 0x3089, 0x306A, 0x3044],
          [0x898B, 0x53D7, 0x3051, 0x3089, 0x308C, 0x307E, 0x305B, 0x3093],
          [0x307B, 0x307C, 0x306A, 0x3044],
          [0x307B, 0x3068, 0x3093, 0x3069, 0x306A, 0x3044],
          [0x5C11, 0x306A, 0x3044],
          [0x76EE, 0x7ACB, 0x305F, 0x306A, 0x3044],
          [0x898B, 0x3089, 0x308C, 0x307E, 0x305B, 0x3093],
          [0x8A8D, 0x3081, 0x3089, 0x308C, 0x307E, 0x305B, 0x3093],
          [0x898B, 0x53D7, 0x3051, 0x306B, 0x304F, 0x3044],
          [0x78BA, 0x8A8D, 0x3067, 0x304D, 0x305A],
          [0x78BA, 0x8A8D, 0x3067, 0x304D, 0x307E, 0x305B, 0x3093]]"

definition POS :: "ustr list" where
  "POS = [[0x6E05, 0x6F54],
          [0x6E05, 0x6383, 0x72B6, 0x614B, 0x306F, 0x826F, 0x597D],
          [0x6982, 0x306D, 0x826F, 0x597D],
          [0x554F, 0x984C, 0x306A, 0x3057],
          [0x826F, 0x597D],
          [0x7DBA, 0x9E97],
          [0x304D, 0x308C, 0x3044],
          [0x6574, 0x9813],
          [0x6574, 0x3048, 0x3089, 0x308C, 0x3066, 0x3044, 0x308B],
          [0x6E05, 0x6F54, 0x611F, 0x304C, 0x3042, 0x308B],
          [0x4E0D, 0x81EA, 0x7136, 0x306A, 0x70B9, 0x306F, 0x306A, 0x3044],
          [0x4E0D, 0x81EA, 0x7136, 0x3055, 0x306F, 0x611F, 0x3058, 0x3089, 0x308C, 0x306A, 0x3044]]"

definition NEG_AFTER :: "rx list list" where
  "NEG_AFTER = [[Lits KW, Dots 12, Lits NEG]]"

definition NEG_BEFORE :: "rx list list" where
  "NEG_BEFORE = [[Lits NEG, Dots 12, Lits KW]]"

definition POS_ANY :: "rx list list" where
  "POS_ANY = [[Lits POS]]"

definition POS_NEAR :: "rx list list" where
  "POS_NEAR = [[Lits KW, Dots 12, Lits POS], [Lits POS, Dots 12, Lits KW]]"

definition ANY_KW :: "rx list list" where
  "ANY_KW = [[Lits KW]]"

section \<open>The verdict engine\<close>

text \<open>
  The loop \<^verbatim>\<open>for w in ws: if w and w in txt: return ...\<close> shared by
  \<open>refine_verdict_by_text\<close> and \<open>force_recheck_by_text\<close>: whether it returns.
\<close>

fun any_literal_in :: "ustr list \<Rightarrow> ustr \<Rightarrow> bool" where
  "any_literal_in [] txt = False"
| "any_literal_in (w # ws) txt = (if w \<noteq> [] \<and> sublist w txt then True else any_literal_in ws txt)"

definition refine_verdict_by_text :: "ustr \<Rightarrow> ustr list \<Rightarrow> ustr list \<Rightarrow> ustr" where
  "refine_verdict_by_text verdict comments ok_whitelist =
     (let txt = join (ascii '' '') comments in
      if any_literal_in ok_whitelist txt then ascii ''ok''
      else if search NEG_AFTER txt \<or> search NEG_BEFORE txt \<or> search POS_NEAR txt then ascii ''ok''
      else if search POS_ANY txt then ascii ''ok''
      else if search ANY_KW txt then ascii ''ng''
      else verdict)"

definition force_recheck_by_text :: "ustr \<Rightarrow> ustr list \<Rightarrow> ustr list \<Rightarrow> ustr" where
  "force_recheck_by_text verdict comments recheck_words =
     (let txt = join (ascii '' '') comments in
      if any_literal_in recheck_words txt then ascii ''unknown'' else verdict)"

text \<open>
  The configuration dictionaries of \<open>analyze_headless\<close>, by their recognised keys; a
  key that is absent is \<open>None\<close>. \<open>thresholds\<close> carries \<open>conf_th\<close>, \<open>OK_WHITELIST\<close> and
  \<open>RECHECK_WHITELIST\<close>; \<open>defaults\<close> carries \<open>conf_th\<close>, \<open>ok_whitelist_global\<close> and
  \<open>ok_whitelist\<close>. The values have the types the callers give them: \<open>conf_th\<close> a
  float, the two lists lists of strings, the two whitelist texts strings, so that
  \<open>float\<close> and \<open>str\<close> leave them as they are.
\<close>

record thresholds =
  th_conf_th :: "real option"
  th_OK_WHITELIST :: "ustr list option"
  th_RECHECK_WHITELIST :: "ustr list option"

record defaults =
  df_conf_th :: "real option"
  df_ok_whitelist_global :: "ustr option"
  df_ok_whitelist :: "ustr option"

text \<open>
  Line 275 of \<open>_analyze_one\<close>:
  \<^verbatim>\<open>th = float(defaults.get("conf_th", thresholds.get("conf_th", 0.6)))\<close>.
\<close>

definition conf_th :: "thresholds \<Rightarrow> defaults \<Rightarrow> real" where
  "conf_th thresholds defaults =
     (case df_conf_th defaults of
        Some v \<Rightarrow> v
      | None \<Rightarrow> (case th_conf_th thresholds of Some v \<Rightarrow> v | None \<Rightarrow> 0.6))"

text \<open>
  Line 276: \<^verbatim>\<open>verdict = "ng" if any(v >= th for v in scores.values()) else "ok"\<close>.
\<close>

definition score_verdict :: "real \<Rightarrow> (ustr \<times> real) list \<Rightarrow> ustr" where
  "score_verdict th scores =
     (if list_ex (\<lambda>v. v \<ge> th) (map snd scores) then ascii ''ng'' else ascii ''ok'')"

text \<open>
  Lines 275 to 287 of \<open>_analyze_one\<close>: the three stages in their order. An absent
  whitelist text is the empty string, an absent recheck list the empty list.
\<close>

definition decide :: "thresholds \<Rightarrow> defaults \<Rightarrow> (ustr \<times> real) list \<Rightarrow> ustr list \<Rightarrow> ustr" where
  "decide thresholds defaults scores comments =
     (let th = conf_th thresholds defaults;
          verdict = score_verdict th scores;
          ok_whitelist_global =
            split_lines (case df_ok_whitelist_global defaults of Some t \<Rightarrow> t | None \<Rightarrow> []);
          ok_whitelist_user =
            split_lines (case df_ok_whitelist defaults of Some t \<Rightarrow> t | None \<Rightarrow> []);
          verdict = refine_verdict_by_text verdict comments (ok_whitelist_global @ ok_whitelist_user);
          recheck_words = (case th_RECHECK_WHITELIST thresholds of Some ws \<Rightarrow> ws | None \<Rightarrow> [])
      in force_recheck_by_text verdict comments recheck_words)"

section \<open>The image normalizer\<close>

text \<open>
  The pixel statistics that \<open>_calc_basic_quality_flags\<close> reads off the image with
  OpenCV and NumPy, each as the outcome of the statement that computes it: the variance
  of the Laplacian, the mean luminance, and the fraction of pixels above 240.
\<close>

record gray_stats =
  gs_var :: "exn + real"
  gs_mean :: "exn + real"
  gs_over :: "exn + real"

text \<open>
  \<open>flags\<close> is created before the \<open>try\<close> and returned after it, so an exception ends the
  computation with the flags appended so far.
\<close>

definition calc_basic_quality_flags :: "bool \<Rightarrow> gray_stats \<Rightarrow> ustr list" where
  "calc_basic_quality_flags has_cv2 img =
     (let flags = [] in
      case (if has_cv2
            then (case gs_var img of
                    Inl e \<Rightarrow> Inl flags
                  | Inr var \<Rightarrow> Inr (if var < 80 then flags @ [ascii ''blur''] else flags))
            else Inr flags) of
        Inl flags \<Rightarrow> flags
      | Inr flags \<Rightarrow>
          (case gs_mean img of
             Inl e \<Rightarrow> flags
           | Inr mean \<Rightarrow>
               (let flags = (if mean < 60 then flags @ [ascii ''dark''] else flags) in
                case gs_over img of
                  Inl e \<Rightarrow> flags
                | Inr over \<Rightarrow> if over > 0.40 then flags @ [ascii ''overexpose''] else flags)))"

section \<open>The classification client\<close>

text \<open>
  Everything outside the program, as one record: whether OpenCV was imported
  (\<open>_HAS_CV2\<close>); what \<open>load_and_resize\<close> does with raw bytes (the decoder of Pillow
  raises on bytes that are no image, otherwise the re-encoded JPEG comes back); the
  statistics of a normalized image; the outcome of the \<open>k\<close>-th request for image \<open>i\<close>
  (the request, then \<open>json.loads\<close> of the reply); \<open>float\<close> of a string; \<open>str\<close> of a value
  that is no string; and the moment at which the worker of image \<open>i\<close> completes.
\<close>

record env =
  HAS_CV2 :: bool
  load_and_resize :: "bytes \<Rightarrow> exn + bytes"
  stats_of :: "bytes \<Rightarrow> gray_stats"
  chat_completion :: "nat \<Rightarrow> nat \<Rightarrow> exn + pyval"
  float_of_str :: "ustr \<Rightarrow> real option"
  str_of :: "pyval \<Rightarrow> ustr"
  completes_at :: "nat \<Rightarrow> nat"

record OpenAIClient =
  model_name :: ustr
  has_client :: bool

text \<open>\<open>OpenAIClient.__init__\<close>: \<open>_client\<close> is set when the stripped key is not empty.\<close>

definition OpenAIClient_init :: "ustr \<Rightarrow> ustr option \<Rightarrow> OpenAIClient" where
  "OpenAIClient_init name api_key =
     \<lparr> model_name = strip name,
       has_client = (strip (case api_key of Some k \<Rightarrow> k | None \<Rightarrow> []) \<noteq> []) \<rparr>"

definition available :: "OpenAIClient \<Rightarrow> bool" where
  "available c \<longleftrightarrow> has_client c \<and> model_name c \<noteq> []"

text \<open>
  The decorator of \<open>analyze_one\<close>:
  \<^verbatim>\<open>@retry(reraise=True, stop=stop_after_attempt(3),
         wait=wait_exponential(multiplier=1, min=1, max=30),
         retry=retry_if_exception_type(Exception))\<close>.
  Tenacity numbers the attempts from 1. After an attempt that raised it asks the stop
  condition; if that holds the exception is raised again, otherwise it sleeps for
  \<open>wait\<close> seconds and calls the function once more. \<open>wait_exponential\<close> is
  \<open>multiplier * 2 ** (attempt_number - 1)\<close>, clamped between \<open>min\<close> and \<open>max\<close>.
  The log records every call of the function body and every sleep.
\<close>

datatype event = Attempt nat | Sleep nat

definition stop_after_attempt :: "nat \<Rightarrow> nat \<Rightarrow> bool" where
  "stop_after_attempt n attempt_number \<longleftrightarrow> attempt_number \<ge> n"

definition wait_exponential :: "nat \<Rightarrow> nat \<Rightarrow> nat \<Rightarrow> nat \<Rightarrow> nat" where
  "wait_exponential multiplier mn mx attempt_number =
     max mn (min (multiplier * 2 ^ (attempt_number - 1)) mx)"

function retry :: "(nat \<Rightarrow> exn + 'a) \<Rightarrow> nat \<Rightarrow> (exn + 'a) \<times> event list" where
  "retry body attempt_number =
     (case body attempt_number of
        Inr v \<Rightarrow> (Inr v, [Attempt attempt_number])
      | Inl e \<Rightarrow>
          if stop_after_attempt 3 attempt_number then (Inl e, [Attempt attempt_number])
          else (case retry body (Suc attempt_number) of
                  (r, evs) \<Rightarrow>
                    (r, Attempt attempt_number # Sleep (wait_exponential 1 1 30 attempt_number) # evs)))"
  by pat_completeness auto
termination
  by (relation "measure (\<lambda>(body, k). 3 - k)") (auto simp: stop_after_attempt_def)

declare retry.simps [simp del]

text \<open>
  \<open>OpenAIClient.analyze_one\<close> for image \<open>i\<close>: the body raises \<open>RuntimeError\<close> when the
  client is not available, and otherwise sends the request and parses the reply.
\<close>

definition analyze_one :: "env \<Rightarrow> OpenAIClient \<Rightarrow> nat \<Rightarrow> (exn + pyval) \<times> event list" where
  "analyze_one env self i =
     retry (\<lambda>k. if \<not> available self
                 then Inl (RuntimeError (ascii ''OpenAIClient not available''))
                 else chat_completion env i k) 1"

section \<open>One image\<close>

record ImageResult =
  index :: nat
  file_name :: ustr
  labels :: pyval
  scores :: "(ustr \<times> real) list"
  comments :: "ustr list"
  quality_flags :: "ustr list"
  verdict :: ustr
  stage :: ustr
  presence :: "(ustr \<times> pyval) list"

text \<open>
  What \<open>_analyze_one\<close> accepts as \<open>blob\<close>: a pair of a name and bytes (an empty name
  stands for a false first component), bare bytes, an object with \<open>read\<close> (the outcome of
  the read, and the \<open>name\<close> attribute if there is one), or anything else.
\<close>

datatype blob =
    Pair_blob ustr bytes
  | Bytes_blob bytes
  | File_blob "exn + bytes" "ustr option"
  | Other_blob

fun digits :: "nat \<Rightarrow> ustr" where
  "digits n = (if n < 10 then [48 + n] else digits (n div 10) @ [48 + n mod 10])"

declare digits.simps [simp del]

text \<open>\<^verbatim>\<open>f"{index:04d}"\<close> and \<open>os.path.basename\<close> (POSIX).\<close>

definition fmt04 :: "nat \<Rightarrow> ustr" where
  "fmt04 n = replicate (4 - length (digits n)) 48 @ digits n"

definition basename :: "ustr \<Rightarrow> ustr" where
  "basename p = rev (takeWhile (\<lambda>c. c \<noteq> 47) (rev p))"

definition normalize_blob :: "nat \<Rightarrow> blob \<Rightarrow> ustr \<times> bytes" where
  "normalize_blob i b =
     (let src_name = fmt04 i @ ascii ''.jpg'' in
      case b of
        Pair_blob name raw \<Rightarrow> (basename (if name = [] then src_name else name), raw)
      | Bytes_blob raw \<Rightarrow> (src_name, raw)
      | File_blob (Inr raw) nm \<Rightarrow> ((case nm of Some n \<Rightarrow> basename n | None \<Rightarrow> src_name), raw)
      | File_blob (Inl e) nm \<Rightarrow> (src_name, [])
      | Other_blob \<Rightarrow> (src_name, []))"

text \<open>
  \<open>float(v)\<close> and \<open>str(x)\<close> on a parsed JSON value. An integer converts when it
  rounds to a finite double, that is when its magnitude is below \<open>2^1024 - 2^970\<close>, the
  midpoint between the largest double and \<open>2^1024\<close>; beyond that \<open>float\<close> raises
  \<open>OverflowError\<close>.
\<close>

fun py_float :: "env \<Rightarrow> pyval \<Rightarrow> exn + real" where
  "py_float env (PFloat x) = Inr x"
| "py_float env (PInt n) =
     (if \<bar>n\<bar> < 2 ^ 1024 - 2 ^ 970 then Inr (of_int n) else Inl OverflowError)"
| "py_float env (PBool b) = Inr (if b then 1 else 0)"
| "py_float env (PStr s) = (case float_of_str env s of Some x \<Rightarrow> Inr x | None \<Rightarrow> Inl ValueError)"
| "py_float env v = Inl TypeError"

fun py_str :: "env \<Rightarrow> pyval \<Rightarrow> ustr" where
  "py_str env (PStr s) = s"
| "py_str env v = str_of env v"

text \<open>\<^verbatim>\<open>{k: float(v) for k, v in items}\<close>: the first conversion that raises ends it.\<close>

fun float_items :: "env \<Rightarrow> (ustr \<times> pyval) list \<Rightarrow> exn + (ustr \<times> real) list" where
  "float_items env [] = Inr []"
| "float_items env ((k, v) # kvs) =
     (case py_float env v of
        Inl e \<Rightarrow> Inl e
      | Inr x \<Rightarrow> (case float_items env kvs of Inl e \<Rightarrow> Inl e | Inr rest \<Rightarrow> Inr ((k, x) # rest)))"

text \<open>
  Lines 269 to 272: the four fields read off the response \<open>d\<close>. \<open>d.get\<close> raises
  \<open>AttributeError\<close> when \<open>d\<close> is no dictionary.
\<close>

definition normalize_response ::
  "env \<Rightarrow> pyval \<Rightarrow> exn + pyval \<times> (ustr \<times> real) list \<times> ustr list \<times> (ustr \<times> pyval) list" where
  "normalize_response env d =
     (case d of
        PDict kv \<Rightarrow>
          (let lbls = (case map_of kv (ascii ''labels'') of Some v \<Rightarrow> v | None \<Rightarrow> PList []);
               cmts = (case map_of kv (ascii ''comments'') of
                         Some (PList xs) \<Rightarrow> map (py_str env) xs | _ \<Rightarrow> []);
               pres = (case map_of kv (ascii ''presence'') of Some (PDict p) \<Rightarrow> p | _ \<Rightarrow> [])
           in case (case map_of kv (ascii ''scores'') of
                      Some (PDict sc) \<Rightarrow> float_items env sc | _ \<Rightarrow> Inr []) of
                Inl e \<Rightarrow> Inl e
              | Inr scs \<Rightarrow> Inr (lbls, scs, cmts, pres))
      | _ \<Rightarrow> Inl AttributeError)"

text \<open>
  The two placeholder responses of lines 261 to 267. The dry-run comment reads
  "(dry run) no real analysis was made because the API key is not set"; the failure
  comment is "nano shippai: " followed by \<open>str(e)\<close>.
\<close>

definition DRY_RUN_COMMENT :: ustr where
  "DRY_RUN_COMMENT =
     [0xFF08, 0x30C9, 0x30E9, 0x30A4, 0x30E9, 0x30F3, 0xFF09, 0x41, 0x50, 0x49, 0x30AD, 0x30FC,
      0x672A, 0x8A2D, 0x5B9A, 0x306E, 0x305F, 0x3081, 0x5B9F, 0x89E3, 0x6790, 0x306F, 0x672A,
      0x5B9F, 0x65BD]"

definition NANO_FAILED :: ustr where
  "NANO_FAILED = [0x6E, 0x61, 0x6E, 0x6F, 0x5931, 0x6557, 0x3A, 0x20]"

definition placeholder :: "ustr \<Rightarrow> pyval" where
  "placeholder comment =
     PDict [(ascii ''labels'', PList []),
            (ascii ''scores'', PDict [(ascii ''quality'', PFloat 0.0)]),
            (ascii ''comments'', PList [PStr comment]),
            (ascii ''presence'', PDict [])]"

text \<open>Lines 260 to 267: the \<open>try\<close> around the call of the client.\<close>

definition classify :: "env \<Rightarrow> OpenAIClient \<Rightarrow> nat \<Rightarrow> pyval \<times> event list" where
  "classify env nano i =
     (if available nano
      then (case analyze_one env nano i of
              (Inr d, lg) \<Rightarrow> (d, lg)
            | (Inl e, lg) \<Rightarrow> (placeholder (NANO_FAILED @ str_exn e), lg))
      else (placeholder DRY_RUN_COMMENT, []))"

text \<open>
  \<open>_analyze_one\<close>. The result comes with the log of the client calls of this image.
  \<open>load_and_resize\<close> and the reading of \<open>d\<close> stand outside every \<open>try\<close>: what they raise
  leaves the function. Writing the normalized bytes to \<open>base_dir\<close> changes nothing in
  the result (its failure is ignored by the source) and is left out. The normalized
  bytes are a JPEG that Pillow has just written, so opening them again for the quality
  flags is taken to succeed. The field \<open>file\<close> of the result is \<open>file_name\<close> here.
\<close>

definition analyze_one_image ::
  "env \<Rightarrow> nat \<Rightarrow> blob \<Rightarrow> OpenAIClient \<Rightarrow> OpenAIClient \<Rightarrow> thresholds \<Rightarrow> defaults
     \<Rightarrow> (exn + ImageResult) \<times> event list" where
  "analyze_one_image env i b nano mini thresholds defaults =
     (case normalize_blob i b of
        (src_name, raw) \<Rightarrow>
          (case load_and_resize env raw of
             Inl e \<Rightarrow> (Inl e, [])
           | Inr data \<Rightarrow>
               (let qflags = calc_basic_quality_flags (HAS_CV2 env) (stats_of env data) in
                case classify env nano i of
                  (d, lg) \<Rightarrow>
                    (case normalize_response env d of
                       Inl e \<Rightarrow> (Inl e, lg)
                     | Inr (lbls, scs, cmts, pres) \<Rightarrow>
                         (Inr \<lparr> index = i,
                                file_name = fmt04 i @ ascii ''_'' @ basename src_name,
                                labels = lbls,
                                scores = scs,
                                comments = cmts,
                                quality_flags = qflags,
                                verdict = decide thresholds defaults scs cmts,
                                stage = ascii ''nano'',
                                presence = pres \<rparr>, lg)))))"

section \<open>The batch\<close>

record JobSummary =
  ok :: nat
  ng :: nat
  unknown :: nat
  counts_by_stage :: "(ustr \<times> nat) list"
  presence_evidence :: "(ustr \<times> nat list) list"

definition AMENITIES :: "ustr list" where
  "AMENITIES = [ascii ''key'', ascii ''wifi'', ascii ''heater'', ascii ''tv'']"

text \<open>
  Lines 399 to 404, the body of the loop over \<open>results\<close>: for every key of
  \<open>presence_evidence\<close>, append the index when \<open>pr.get(k)\<close> is the boolean \<open>True\<close>.
\<close>

definition add_evidence :: "ImageResult \<Rightarrow> (ustr \<times> nat list) list \<Rightarrow> (ustr \<times> nat list) list" where
  "add_evidence r ev =
     map (\<lambda>(k, xs). if map_of (presence r) k = Some (PBool True) then (k, xs @ [index r]) else (k, xs)) ev"

definition collect_evidence :: "ImageResult list \<Rightarrow> (ustr \<times> nat list) list" where
  "collect_evidence results = foldl (\<lambda>ev r. add_evidence r ev) (map (\<lambda>k. (k, [])) AMENITIES) results"

definition count_where :: "('a \<Rightarrow> bool) \<Rightarrow> 'a list \<Rightarrow> nat" where
  "count_where P xs = length (filter P xs)"

definition summarize :: "ImageResult list \<Rightarrow> JobSummary" where
  "summarize results =
     \<lparr> ok = count_where (\<lambda>r. verdict r = ascii ''ok'') results,
       ng = count_where (\<lambda>r. verdict r = ascii ''ng'') results,
       unknown = count_where (\<lambda>r. verdict r = ascii ''unknown'') results,
       counts_by_stage =
         [(ascii ''nano'', count_where (\<lambda>r. stage r = ascii ''nano'') results),
          (ascii ''mini'', count_where (\<lambda>r. stage r = ascii ''mini'') results),
          (ascii ''full'', count_where (\<lambda>r. stage r = ascii ''full'') results)],
       presence_evidence = collect_evidence results \<rparr>"

text \<open>
  \<open>as_completed(futures)\<close> yields the futures in the order in which their workers
  complete, whatever that order is: future \<open>i\<close> completes at \<open>completes_at env i\<close>.
\<close>

definition as_completed :: "env \<Rightarrow> 'a list \<Rightarrow> 'a list" where
  "as_completed env futures =
     map snd (sort_key (\<lambda>(i, fu). completes_at env i) (enumerate 0 futures))"

text \<open>
  Lines 391 to 394: \<open>fu.result()\<close> raises what the worker raised, which ends the loop
  and the function; \<open>_analyze_one\<close> never returns \<open>None\<close>.
\<close>

fun gather :: "(exn + 'a) list \<Rightarrow> exn + 'a list" where
  "gather [] = Inr []"
| "gather (Inl e # fus) = Inl e"
| "gather (Inr r # fus) = (case gather fus of Inl e \<Rightarrow> Inl e | Inr rs \<Rightarrow> Inr (r # rs))"

text \<open>
  Lines 378 and 379: \<open>defaults.setdefault("ok_whitelist_global", ...)\<close> when
  \<open>thresholds\<close> has the list \<open>OK_WHITELIST\<close>.
\<close>

definition setdefault_ok_whitelist_global :: "thresholds \<Rightarrow> defaults \<Rightarrow> defaults" where
  "setdefault_ok_whitelist_global thresholds defaults =
     (case th_OK_WHITELIST thresholds of
        Some ws \<Rightarrow>
          (case df_ok_whitelist_global defaults of
             None \<Rightarrow> defaults\<lparr>df_ok_whitelist_global := Some (join [0x0A] ws)\<rparr>
           | Some t \<Rightarrow> defaults)
      | None \<Rightarrow> defaults)"

text \<open>Line 390: one worker per input, numbered by its position.\<close>

definition submit_all ::
  "env \<Rightarrow> blob list \<Rightarrow> OpenAIClient \<Rightarrow> OpenAIClient \<Rightarrow> thresholds \<Rightarrow> defaults
     \<Rightarrow> ((exn + ImageResult) \<times> event list) list" where
  "submit_all env files nano mini thresholds defaults =
     map (\<lambda>(i, f). analyze_one_image env i f nano mini thresholds defaults) (enumerate 0 files)"

text \<open>
  \<open>analyze_headless\<close>. The pool runs every submitted worker to its end before an
  exception leaves the \<open>with\<close> block, so the logs of all images are returned in either
  case. \<open>base_dir\<close> and \<open>job_id\<close> come from the file system and the clock and are left
  out of the result.
\<close>

definition analyze_headless ::
  "env \<Rightarrow> blob list \<Rightarrow> ustr \<Rightarrow> ustr \<Rightarrow> thresholds \<Rightarrow> defaults
     \<Rightarrow> (exn + JobSummary \<times> ImageResult list) \<times> event list list" where
  "analyze_headless env files property_name api_key thresholds defaults0 =
     (let defaults = setdefault_ok_whitelist_global thresholds defaults0;
          nano = OpenAIClient_init (ascii ''gpt-5-nano'') (Some api_key);
          mini = OpenAIClient_init [] (Some api_key);
          futures = submit_all env files nano mini thresholds defaults;
          logs = map snd futures
      in case gather (as_completed env (map fst futures)) of
           Inl e \<Rightarrow> (Inl e, logs)
         | Inr collected \<Rightarrow>
             (let results = sort_key index collected
              in (Inr (summarize results, results), logs)))"

section \<open>The text rules, as the specification words them\<close>

text \<open>
  \<open>appears A txt\<close>: some literal of \<open>A\<close> occurs in \<open>txt\<close>. \<open>followed_within n A B txt\<close>:
  some literal of \<open>A\<close> occurs in \<open>txt\<close> and is followed, at most \<open>n\<close> characters after
  its end, by a literal of \<open>B\<close>. \<open>followed_within_line\<close> asks in addition that no line
  feed stands between the two.
\<close>

definition appears :: "ustr list \<Rightarrow> ustr \<Rightarrow> bool" where
  "appears A txt \<longleftrightarrow> (\<exists>a\<in>set A. sublist a txt)"

definition followed_within :: "nat \<Rightarrow> ustr list \<Rightarrow> ustr list \<Rightarrow> ustr \<Rightarrow> bool" where
  "followed_within n A B txt \<longleftrightarrow>
     (\<exists>pre a g b post. txt = pre @ a @ g @ b @ post \<and> a \<in> set A \<and> b \<in> set B \<and> length g \<le> n)"

definition followed_within_line :: "nat \<Rightarrow> ustr list \<Rightarrow> ustr list \<Rightarrow> ustr \<Rightarrow> bool" where
  "followed_within_line n A B txt \<longleftrightarrow>
     (\<exists>pre a g b post. txt = pre @ a @ g @ b @ post \<and> a \<in> set A \<and> b \<in> set B
        \<and> length g \<le> n \<and> 10 \<notin> set g)"

text \<open>
  The precedence (a) to (e) of the text refinement in the words of the specification,
  where "within 12 characters" puts no condition on the characters in between.
\<close>

definition refine_verdict_spec :: "ustr \<Rightarrow> ustr list \<Rightarrow> ustr list \<Rightarrow> ustr" where
  "refine_verdict_spec v cs wl =
     (let txt = join (ascii '' '') cs in
      if (\<exists>w\<in>set wl. w \<noteq> [] \<and> sublist w txt) then ascii ''ok''
      else if followed_within 12 KW NEG txt \<or> followed_within 12 NEG KW txt
              \<or> followed_within 12 KW POS txt \<or> followed_within 12 POS KW txt then ascii ''ok''
      else if appears POS txt then ascii ''ok''
      else if appears KW txt then ascii ''ng''
      else v)"

section \<open>An example batch\<close>

text \<open>
  A batch of two images for the concrete instances below. The classifier answers the
  first image with a hair label, a high score, the comment "kami-no-ke ga fuchaku" and
  a presence mapping with a null, a false and a true; every request for the second
  image times out. Empty raw bytes are no image. The second worker completes first.
\<close>

definition example_reply :: pyval where
  "example_reply =
     PDict [(ascii ''labels'', PList [PStr (ascii ''hair_dust'')]),
            (ascii ''scores'', PDict [(ascii ''hair_dust'', PFloat 0.9), (ascii ''quality'', PInt 0)]),
            (ascii ''comments'', PList [PStr [0x9AEA, 0x306E, 0x6BDB, 0x304C, 0x4ED8, 0x7740]]),
            (ascii ''presence'',
               PDict [(ascii ''key'', PNone), (ascii ''wifi'', PBool False), (ascii ''heater'', PBool True)])]"

definition example_env :: env where
  "example_env =
     \<lparr> HAS_CV2 = True,
       load_and_resize = (\<lambda>raw. if raw = [] then Inl (PyExn ''UnidentifiedImageError'' []) else Inr raw),
       stats_of = (\<lambda>data. \<lparr>gs_var = Inr 120, gs_mean = Inr 40, gs_over = Inr 0.1\<rparr>),
       chat_completion = (\<lambda>i k. if i = 0 then Inr example_reply
                                  else Inl (PyExn ''APIError'' (ascii ''timeout''))),
       float_of_str = (\<lambda>s. None),
       str_of = (\<lambda>v. []),
       completes_at = (\<lambda>i. 10 - i) \<rparr>"

definition example_files :: "blob list" where
  "example_files = [Pair_blob (ascii ''a.jpg'') [1], Bytes_blob [2]]"

definition no_thresholds :: thresholds where
  "no_thresholds = \<lparr>th_conf_th = None, th_OK_WHITELIST = None, th_RECHECK_WHITELIST = None\<rparr>"

definition no_defaults :: defaults where
  "no_defaults = \<lparr>df_conf_th = None, df_ok_whitelist_global = None, df_ok_whitelist = None\<rparr>"

text \<open>What the two workers return when the client has a key.\<close>

definition result0 :: ImageResult where
  "result0 = \<lparr> index = 0, file_name = ascii ''0000_a.jpg'',
             labels = PList [PStr (ascii ''hair_dust'')],
             scores = [(ascii ''hair_dust'', 0.9), (ascii ''quality'', 0)],
             comments = [[0x9AEA, 0x306E, 0x6BDB, 0x304C, 0x4ED8, 0x7740]],
             quality_flags = [ascii ''dark''],
             verdict = ascii ''ng'', stage = ascii ''nano'',
             presence = [(ascii ''key'', PNone), (ascii ''wifi'', PBool False), (ascii ''heater'', PBool True)] \<rparr>"

definition result1 :: ImageResult where
  "result1 = \<lparr> index = Suc 0, file_name = ascii ''0001_0001.jpg'',
             labels = PList [],
             scores = [(ascii ''quality'', 0)],
             comments = [NANO_FAILED @ ascii ''timeout''],
             quality_flags = [ascii ''dark''],
             verdict = ascii ''ok'', stage = ascii ''nano'',
             presence = [] \<rparr>"

section \<open>Properties of the text rules\<close>

lemma any_literal_in_iff: "any_literal_in ws txt \<longleftrightarrow> (\<exists>w\<in>set ws. w \<noteq> [] \<and> sublist w txt)"
  by (induction ws) auto

lemma dots_iff: "t \<in> set (dots n s) \<longleftrightarrow> (\<exists>g. s = g @ t \<and> length g \<le> n \<and> 10 \<notin> set g)"
proof (induction s arbitrary: n)
  case Nil
  show ?case by auto
next
  case (Cons c cs)
  show ?case
  proof
    assume "t \<in> set (dots n (c # cs))"
    then consider "t = c # cs" | "n \<noteq> 0" "c \<noteq> 10" "t \<in> set (dots (n - 1) cs)"
      by (auto split: if_splits)
    then show "\<exists>g. c # cs = g @ t \<and> length g \<le> n \<and> 10 \<notin> set g"
    proof cases
      case 1
      then show ?thesis by (intro exI[of _ "[]"]) simp
    next
      case 2
      then obtain g where "cs = g @ t" "length g \<le> n - 1" "10 \<notin> set g"
        using Cons.IH by blast
      with 2 show ?thesis by (intro exI[of _ "c # g"]) auto
    qed
  next
    assume "\<exists>g. c # cs = g @ t \<and> length g \<le> n \<and> 10 \<notin> set g"
    then obtain g where g: "c # cs = g @ t" "length g \<le> n" "10 \<notin> set g" by blast
    show "t \<in> set (dots n (c # cs))"
    proof (cases g)
      case Nil
      with g have "t = c # cs" by simp
      then show ?thesis by simp
    next
      case (Cons x g')
      with g have "x = c" "cs = g' @ t" "length g' \<le> n - 1" "10 \<notin> set g'" "c \<noteq> 10" "n \<noteq> 0"
        by auto
      then show ?thesis using Cons.IH[of "n - 1"] by auto
    qed
  qed
qed

lemma lits_iff: "t \<in> set (rx_step (Lits ws) s) \<longleftrightarrow> (\<exists>w\<in>set ws. s = w @ t)"
proof
  assume "t \<in> set (rx_step (Lits ws) s)"
  then show "\<exists>w\<in>set ws. s = w @ t" by (auto simp: prefix_def)
next
  assume "\<exists>w\<in>set ws. s = w @ t"
  then obtain w where w: "w \<in> set ws" "s = w @ t" by blast
  then have "w \<in> set (filter (\<lambda>w. prefix w s) ws)" "drop (length w) s = t" by auto
  then show "t \<in> set (rx_step (Lits ws) s)" by force
qed

lemma seq_ends_Cons_iff:
  "t \<in> set (seq_ends (r # rs) s) \<longleftrightarrow> (\<exists>m\<in>set (rx_step r s). t \<in> set (seq_ends rs m))"
  by auto

lemma seq3_mem:
  "t \<in> set (seq_ends [Lits A, Dots n, Lits B] s) \<longleftrightarrow>
     (\<exists>a g b. s = a @ g @ b @ t \<and> a \<in> set A \<and> b \<in> set B \<and> length g \<le> n \<and> 10 \<notin> set g)"
  (is "?L \<longleftrightarrow> ?R")
proof
  assume ?L
  then obtain m1 m2 where m: "m1 \<in> set (rx_step (Lits A) s)" "m2 \<in> set (dots n m1)"
      "t \<in> set (rx_step (Lits B) m2)"
    by (auto simp del: rx_step.simps(1) simp add: seq_ends_Cons_iff)
  from m(1) obtain a where a: "a \<in> set A" "s = a @ m1" unfolding lits_iff by blast
  from m(2) obtain g where g: "m1 = g @ m2" "length g \<le> n" "10 \<notin> set g"
    unfolding dots_iff by blast
  from m(3) obtain b where b: "b \<in> set B" "m2 = b @ t" unfolding lits_iff by blast
  from a g b have "s = a @ g @ b @ t" by simp
  with a g b show ?R by blast
next
  assume ?R
  then obtain a g b where h: "s = a @ g @ b @ t" "a \<in> set A" "b \<in> set B" "length g \<le> n"
      "10 \<notin> set g"
    by blast
  have 1: "g @ b @ t \<in> set (rx_step (Lits A) s)" unfolding lits_iff using h by blast
  have 2: "b @ t \<in> set (dots n (g @ b @ t))" unfolding dots_iff using h by blast
  have 3: "t \<in> set (rx_step (Lits B) (b @ t))" unfolding lits_iff using h by blast
  have "t \<in> set (seq_ends [Lits B] (b @ t))"
    using 3 by (simp del: rx_step.simps(1))
  with 2 have "t \<in> set (seq_ends [Dots n, Lits B] (g @ b @ t))"
    unfolding seq_ends_Cons_iff[of t "Dots n"] by (auto simp del: rx_step.simps(1) seq_ends.simps)
  with 1 show ?L
    unfolding seq_ends_Cons_iff[of t "Lits A"] by blast
qed

lemma nonempty_iff_mem: "xs \<noteq> [] \<longleftrightarrow> (\<exists>t. t \<in> set xs)"
  by (cases xs) auto

lemma seq3_iff:
  "seq_ends [Lits A, Dots n, Lits B] s \<noteq> [] \<longleftrightarrow>
     (\<exists>a g b post. s = a @ g @ b @ post \<and> a \<in> set A \<and> b \<in> set B \<and> length g \<le> n \<and> 10 \<notin> set g)"
  unfolding nonempty_iff_mem seq3_mem by blast

lemma seq1_iff: "seq_ends [Lits A] s \<noteq> [] \<longleftrightarrow> (\<exists>a\<in>set A. prefix a s)"
  by (auto simp: filter_empty_conv)

lemma search_iff: "search p s \<longleftrightarrow> (\<exists>pre t. s = pre @ t \<and> match_here p t)"
proof (induction s)
  case Nil
  show ?case by simp
next
  case (Cons c cs)
  show ?case
  proof
    assume "search p (c # cs)"
    then consider "match_here p (c # cs)" | "search p cs" by auto
    then show "\<exists>pre t. c # cs = pre @ t \<and> match_here p t"
    proof cases
      case 1 then show ?thesis by (metis append_Nil)
    next
      case 2
      then obtain pre t where "cs = pre @ t" "match_here p t" using Cons.IH by blast
      then show ?thesis by (metis append_Cons)
    qed
  next
    assume "\<exists>pre t. c # cs = pre @ t \<and> match_here p t"
    then obtain pre t where pt: "c # cs = pre @ t" "match_here p t" by blast
    show "search p (c # cs)"
    proof (cases pre)
      case Nil
      with pt have "match_here p (c # cs)" by simp
      then show ?thesis by simp
    next
      case (Cons x pre')
      with pt have "cs = pre' @ t" by simp
      with pt Cons.IH show ?thesis by auto
    qed
  qed
qed

lemma match_here_single: "match_here [alt] s \<longleftrightarrow> seq_ends alt s \<noteq> []"
  by (simp add: match_here_def)

lemma search_seq3:
  "search [[Lits A, Dots n, Lits B]] txt \<longleftrightarrow> followed_within_line n A B txt"
proof -
  have "search [[Lits A, Dots n, Lits B]] txt \<longleftrightarrow>
        (\<exists>pre t. txt = pre @ t \<and> (\<exists>a g b post. t = a @ g @ b @ post \<and> a \<in> set A \<and> b \<in> set B
            \<and> length g \<le> n \<and> 10 \<notin> set g))"
    unfolding search_iff match_here_single seq3_iff ..
  also have "\<dots> \<longleftrightarrow> followed_within_line n A B txt"
    unfolding followed_within_line_def by blast
  finally show ?thesis .
qed

lemma search_seq1: "search [[Lits A]] txt \<longleftrightarrow> appears A txt"
proof -
  have "search [[Lits A]] txt \<longleftrightarrow> (\<exists>pre t. txt = pre @ t \<and> (\<exists>a\<in>set A. prefix a t))"
    unfolding search_iff match_here_single seq1_iff ..
  also have "\<dots> \<longleftrightarrow> appears A txt"
    unfolding appears_def sublist_altdef' suffix_def by blast
  finally show ?thesis .
qed

lemma search_alt2: "search [x, y] txt \<longleftrightarrow> search [x] txt \<or> search [y] txt"
  unfolding search_iff match_here_def by auto

lemmas rx_eval = refine_verdict_by_text_def force_recheck_by_text_def NEG_AFTER_def
  NEG_BEFORE_def POS_NEAR_def POS_ANY_def ANY_KW_def KW_def NEG_def POS_def match_here_def
  ascii_def sublist_code

section \<open>The verdict engine: claims C2, C3, C4 and C10\<close>

lemma verdict_literals_distinct:
  "ascii ''ok'' \<noteq> ascii ''ng''" "ascii ''ok'' \<noteq> ascii ''unknown''" "ascii ''ng'' \<noteq> ascii ''unknown''"
  "ascii ''ng'' \<noteq> ascii ''ok''" "ascii ''unknown'' \<noteq> ascii ''ok''" "ascii ''unknown'' \<noteq> ascii ''ng''"
  by (simp_all add: ascii_def)

lemma refine_verdict_by_text_eq:
  "refine_verdict_by_text v cs wl =
     (let txt = join (ascii '' '') cs in
      if (\<exists>w\<in>set wl. w \<noteq> [] \<and> sublist w txt) then ascii ''ok''
      else if followed_within_line 12 KW NEG txt \<or> followed_within_line 12 NEG KW txt
              \<or> followed_within_line 12 KW POS txt \<or> followed_within_line 12 POS KW txt
           then ascii ''ok''
      else if appears POS txt then ascii ''ok''
      else if appears KW txt then ascii ''ng''
      else v)"
  unfolding refine_verdict_by_text_def NEG_AFTER_def NEG_BEFORE_def POS_NEAR_def POS_ANY_def
    ANY_KW_def search_alt2 search_seq3 search_seq1 any_literal_in_iff
  by (simp add: Let_def)

lemma force_recheck_by_text_eq:
  "force_recheck_by_text v cs rwl =
     (if (\<exists>w\<in>set rwl. w \<noteq> [] \<and> sublist w (join (ascii '' '') cs)) then ascii ''unknown'' else v)"
  by (simp add: force_recheck_by_text_def any_literal_in_iff Let_def)

lemma decide_eq:
  "decide t d sc cs =
     force_recheck_by_text
       (refine_verdict_by_text (score_verdict (conf_th t d) sc) cs
          (split_lines (case df_ok_whitelist_global d of Some x \<Rightarrow> x | None \<Rightarrow> [])
           @ split_lines (case df_ok_whitelist d of Some x \<Rightarrow> x | None \<Rightarrow> [])))
       cs (case th_RECHECK_WHITELIST t of Some ws \<Rightarrow> ws | None \<Rightarrow> [])"
  by (simp add: decide_def Let_def)

text \<open>
  Claim C2. The forced recheck wins over the score stage and the text refinement:
  whatever the scores, the comments, the OK whitelist and the recheck whitelist are, if
  the comments joined by spaces contain a non-empty literal of the recheck whitelist,
  the verdict after the three stages is "unknown" (for the stages composed by hand and
  for \<open>decide\<close>, which composes them as \<open>_analyze_one\<close> does); if they contain none,
  \<open>force_recheck_by_text\<close> returns the verdict it was given.
\<close>

theorem force_recheck_wins:
  "((\<exists>w\<in>set rwl. w \<noteq> [] \<and> sublist w (join (ascii '' '') cs)) \<longrightarrow>
       force_recheck_by_text (refine_verdict_by_text (score_verdict th sc) cs okwl) cs rwl
         = ascii ''unknown'')
   \<and> ((\<exists>w\<in>set rwl. w \<noteq> [] \<and> sublist w (join (ascii '' '') cs)) \<and> th_RECHECK_WHITELIST t = Some rwl
        \<longrightarrow> decide t d sc cs = ascii ''unknown'')
   \<and> (\<not> (\<exists>w\<in>set rwl. w \<noteq> [] \<and> sublist w (join (ascii '' '') cs)) \<longrightarrow>
        force_recheck_by_text v cs rwl = v)"
  by (auto simp: force_recheck_by_text_eq decide_eq)

text \<open>
  The example of the specification: scores \<open>{quality: 0.9}\<close>, one comment
  "you-kakunin: kami-no-ke ari", and "you-kakunin" in both whitelists. The text
  refinement answers "ok" through the OK whitelist, and the final verdict is "unknown".
\<close>

theorem force_recheck_wins_witness:
  "(\<exists>w\<in>set [[0x8981, 0x78BA, 0x8A8D]]. w \<noteq> []
      \<and> sublist w (join (ascii '' '')
            [[0x8981, 0x78BA, 0x8A8D, 0x3A, 0x20, 0x9AEA, 0x306E, 0x6BDB, 0x3042, 0x308A]]))
   \<and> refine_verdict_by_text (score_verdict 0.6 [(ascii ''quality'', 0.9)])
        [[0x8981, 0x78BA, 0x8A8D, 0x3A, 0x20, 0x9AEA, 0x306E, 0x6BDB, 0x3042, 0x308A]]
        [[0x8981, 0x78BA, 0x8A8D]] = ascii ''ok''
   \<and> force_recheck_by_text
        (refine_verdict_by_text (score_verdict 0.6 [(ascii ''quality'', 0.9)])
           [[0x8981, 0x78BA, 0x8A8D, 0x3A, 0x20, 0x9AEA, 0x306E, 0x6BDB, 0x3042, 0x308A]]
           [[0x8981, 0x78BA, 0x8A8D]])
        [[0x8981, 0x78BA, 0x8A8D, 0x3A, 0x20, 0x9AEA, 0x306E, 0x6BDB, 0x3042, 0x308A]]
        [[0x8981, 0x78BA, 0x8A8D]] = ascii ''unknown''"
proof -
  let ?c = "[[0x8981, 0x78BA, 0x8A8D, 0x3A, 0x20, 0x9AEA, 0x306E, 0x6BDB, 0x3042, 0x308A]] :: ustr list"
  let ?w = "[[0x8981, 0x78BA, 0x8A8D]] :: ustr list"
  have h: "\<exists>w\<in>set ?w. w \<noteq> [] \<and> sublist w (join (ascii '' '') ?c)"
    by (simp add: sublist_code)
  have r: "refine_verdict_by_text (score_verdict 0.6 [(ascii ''quality'', 0.9)]) ?c ?w = ascii ''ok''"
    by (simp add: refine_verdict_by_text_def sublist_code)
  from h force_recheck_wins[where rwl = ?w and cs = ?c and th = "0.6"
      and sc = "[(ascii ''quality'', 0.9)]" and okwl = ?w]
  have "force_recheck_by_text
          (refine_verdict_by_text (score_verdict 0.6 [(ascii ''quality'', 0.9)]) ?c ?w) ?c ?w
        = ascii ''unknown''"
    by blast
  with h r show ?thesis by blast
qed

text \<open>
  Claim C3, as stated: \<open>refine_verdict_by_text\<close> follows the precedence (a) to (e) with
  "within 12 characters" read as at most 12 characters of any kind. It fails on the
  comment "kami-no-ke", line feed, "nai" with input verdict "ok": a keyword is followed
  one character later by a negation term, so rule (b) as stated answers "ok", but the
  gap \<open>.{0,12}\<close> of the pattern does not cross a line feed, no other rule before (d)
  applies, and the function answers "ng".
\<close>

theorem refine_verdict_line_feed_counterexample:
  "refine_verdict_by_text (ascii ''ok'') [[0x9AEA, 0x306E, 0x6BDB, 10, 0x306A, 0x3044]] [] = ascii ''ng''
   \<and> refine_verdict_spec (ascii ''ok'') [[0x9AEA, 0x306E, 0x6BDB, 10, 0x306A, 0x3044]] [] = ascii ''ok''"
proof -
  have code: "refine_verdict_by_text (ascii ''ok'') [[0x9AEA, 0x306E, 0x6BDB, 10, 0x306A, 0x3044]] []
                = ascii ''ng''"
    by (simp add: rx_eval)
  have "[0x9AEA, 0x306E, 0x6BDB, 10, 0x306A, 0x3044]
          = [] @ [0x9AEA, 0x306E, 0x6BDB] @ [10] @ [0x306A, 0x3044] @ ([] :: ustr)
        \<and> [0x9AEA, 0x306E, 0x6BDB] \<in> set KW \<and> [0x306A, 0x3044] \<in> set NEG
        \<and> length [10 :: nat] \<le> 12"
    by (simp add: KW_def NEG_def)
  then have "followed_within 12 KW NEG [0x9AEA, 0x306E, 0x6BDB, 10, 0x306A, 0x3044]"
    unfolding followed_within_def by blast
  then have "refine_verdict_spec (ascii ''ok'') [[0x9AEA, 0x306E, 0x6BDB, 10, 0x306A, 0x3044]] []
               = ascii ''ok''"
    by (simp add: refine_verdict_spec_def)
  with code show ?thesis by blast
qed

text \<open>
  Claim C3, amended: for every input verdict, comment list and OK whitelist,
  \<open>refine_verdict_by_text\<close> applies this precedence to the comments joined by spaces:
  (a) if a non-empty whitelist literal is a substring, "ok"; (b) else if a cleanliness
  keyword is followed by a negation term, or a negation term by a keyword, or a keyword
  by a positive term, or a positive term by a keyword, with at most 12 characters in
  between and no line feed among them, "ok"; (c) else if a positive phrase occurs, "ok";
  (d) else if a keyword occurs, "ng"; (e) else the input verdict.
\<close>

theorem refine_verdict_by_text_precedence:
  "refine_verdict_by_text v cs wl =
     (let txt = join (ascii '' '') cs in
      if (\<exists>w\<in>set wl. w \<noteq> [] \<and> sublist w txt) then ascii ''ok''
      else if followed_within_line 12 KW NEG txt \<or> followed_within_line 12 NEG KW txt
              \<or> followed_within_line 12 KW POS txt \<or> followed_within_line 12 POS KW txt
           then ascii ''ok''
      else if appears POS txt then ascii ''ok''
      else if appears KW txt then ascii ''ng''
      else v)"
  by (rule refine_verdict_by_text_eq)

text \<open>
  The bare keyword of the specification's example, "kami-no-ke ga fuchaku" with no
  whitelist: the precedence arrives at (d).
\<close>

theorem refine_verdict_by_text_precedence_witness:
  "(let txt = join (ascii '' '') [[0x9AEA, 0x306E, 0x6BDB, 0x304C, 0x4ED8, 0x7740]] in
      if (\<exists>w\<in>set ([] :: ustr list). w \<noteq> [] \<and> sublist w txt) then ascii ''ok''
      else if followed_within_line 12 KW NEG txt \<or> followed_within_line 12 NEG KW txt
              \<or> followed_within_line 12 KW POS txt \<or> followed_within_line 12 POS KW txt
           then ascii ''ok''
      else if appears POS txt then ascii ''ok''
      else if appears KW txt then ascii ''ng''
      else ascii ''ok'') = ascii ''ng''"
proof -
  have "refine_verdict_by_text (ascii ''ok'') [[0x9AEA, 0x306E, 0x6BDB, 0x304C, 0x4ED8, 0x7740]] []
          = ascii ''ng''"
    by (simp add: rx_eval)
  then show ?thesis
    unfolding refine_verdict_by_text_precedence[of "ascii ''ok''"
        "[[0x9AEA, 0x306E, 0x6BDB, 0x304C, 0x4ED8, 0x7740]]" "[]"] .
qed

text \<open>
  Claim C4. In the score stage the preliminary verdict is "ng" exactly when some score
  value is greater than or equal to the configured confidence threshold, and "ok"
  otherwise; empty scores give "ok". The configured threshold is the \<open>conf_th\<close> of
  \<open>defaults\<close> when that is set, else the \<open>conf_th\<close> of \<open>thresholds\<close> when that is set
  (this is how a property overrides it), else 0.6; and it is this threshold that the
  score stage of \<open>_analyze_one\<close> compares the scores with.
\<close>

theorem score_threshold_stage:
  "(score_verdict th sc = ascii ''ng'' \<longleftrightarrow> (\<exists>v\<in>set (map snd sc). v \<ge> th))
   \<and> (score_verdict th sc = ascii ''ok'' \<longleftrightarrow> \<not> (\<exists>v\<in>set (map snd sc). v \<ge> th))
   \<and> score_verdict th [] = ascii ''ok''
   \<and> (df_conf_th d = None \<and> th_conf_th t = None \<longrightarrow>
        conf_th t d = 0.6
        \<and> (score_verdict (conf_th t d) sc = ascii ''ng'' \<longleftrightarrow> (\<exists>v\<in>set (map snd sc). v \<ge> 0.6)))
   \<and> (df_conf_th d = Some x \<longrightarrow>
        conf_th t d = x
        \<and> (score_verdict (conf_th t d) sc = ascii ''ng'' \<longleftrightarrow> (\<exists>v\<in>set (map snd sc). v \<ge> x)))
   \<and> (df_conf_th d = None \<and> th_conf_th t = Some y \<longrightarrow>
        conf_th t d = y
        \<and> (score_verdict (conf_th t d) sc = ascii ''ng'' \<longleftrightarrow> (\<exists>v\<in>set (map snd sc). v \<ge> y)))
   \<and> (score_verdict (conf_th t d) sc = ascii ''ng'' \<longleftrightarrow> (\<exists>v\<in>set (map snd sc). v \<ge> conf_th t d))
   \<and> (score_verdict (conf_th t d) sc = ascii ''ok'' \<longleftrightarrow> \<not> (\<exists>v\<in>set (map snd sc). v \<ge> conf_th t d))
   \<and> decide t d sc cs =
        force_recheck_by_text
          (refine_verdict_by_text (score_verdict (conf_th t d) sc) cs
             (split_lines (case df_ok_whitelist_global d of Some w \<Rightarrow> w | None \<Rightarrow> [])
              @ split_lines (case df_ok_whitelist d of Some w \<Rightarrow> w | None \<Rightarrow> [])))
          cs (case th_RECHECK_WHITELIST t of Some ws \<Rightarrow> ws | None \<Rightarrow> [])"
proof -
  have iff_ng: "score_verdict h sc = ascii ''ng'' \<longleftrightarrow> (\<exists>v\<in>set (map snd sc). v \<ge> h)" for h
    by (auto simp: score_verdict_def list_ex_iff verdict_literals_distinct)
  have iff_ok: "score_verdict h sc = ascii ''ok'' \<longleftrightarrow> \<not> (\<exists>v\<in>set (map snd sc). v \<ge> h)" for h
    by (auto simp: score_verdict_def list_ex_iff verdict_literals_distinct)
  have empty: "score_verdict th [] = ascii ''ok''"
    by (simp add: score_verdict_def)
  have c0: "conf_th t d = 0.6" if "df_conf_th d = None \<and> th_conf_th t = None"
    using that by (simp add: conf_th_def)
  have c1: "conf_th t d = x" if "df_conf_th d = Some x"
    using that by (simp add: conf_th_def)
  have c2: "conf_th t d = y" if "df_conf_th d = None \<and> th_conf_th t = Some y"
    using that by (simp add: conf_th_def)
  show ?thesis
    using iff_ng[of th] iff_ok[of th] empty c0 c1 c2 iff_ng[of "conf_th t d"]
      iff_ok[of "conf_th t d"] decide_eq[of t d sc cs]
    by metis
qed

text \<open>
  With no \<open>conf_th\<close> configured a score of 0.7 is "ng"; with \<open>conf_th\<close> 0.8 in
  \<open>defaults\<close>, or in \<open>thresholds\<close> alone, the same score is "ok".
\<close>

theorem score_threshold_stage_witness:
  "score_verdict 0.6 [(ascii ''clutter'', 0.2), (ascii ''quality'', 0.9)] = ascii ''ng''
   \<and> score_verdict 0.6 [(ascii ''clutter'', 0.2), (ascii ''quality'', 0.5)] = ascii ''ok''
   \<and> conf_th \<lparr>th_conf_th = None, th_OK_WHITELIST = None, th_RECHECK_WHITELIST = None\<rparr>
        \<lparr>df_conf_th = None, df_ok_whitelist_global = None, df_ok_whitelist = None\<rparr> = 0.6
   \<and> score_verdict
        (conf_th \<lparr>th_conf_th = None, th_OK_WHITELIST = None, th_RECHECK_WHITELIST = None\<rparr>
           \<lparr>df_conf_th = None, df_ok_whitelist_global = None, df_ok_whitelist = None\<rparr>)
        [(ascii ''quality'', 0.7)] = ascii ''ng''
   \<and> score_verdict
        (conf_th \<lparr>th_conf_th = None, th_OK_WHITELIST = None, th_RECHECK_WHITELIST = None\<rparr>
           \<lparr>df_conf_th = Some 0.8, df_ok_whitelist_global = None, df_ok_whitelist = None\<rparr>)
        [(ascii ''quality'', 0.7)] = ascii ''ok''
   \<and> score_verdict
        (conf_th \<lparr>th_conf_th = Some 0.8, th_OK_WHITELIST = None, th_RECHECK_WHITELIST = None\<rparr>
           \<lparr>df_conf_th = None, df_ok_whitelist_global = None, df_ok_whitelist = None\<rparr>)
        [(ascii ''quality'', 0.7)] = ascii ''ok''"
proof -
  let ?tn = "\<lparr>th_conf_th = None :: real option, th_OK_WHITELIST = None, th_RECHECK_WHITELIST = None\<rparr>"
  let ?th = "\<lparr>th_conf_th = Some (0.8 :: real), th_OK_WHITELIST = None, th_RECHECK_WHITELIST = None\<rparr>"
  let ?dn = "\<lparr>df_conf_th = None :: real option, df_ok_whitelist_global = None, df_ok_whitelist = None\<rparr>"
  let ?dh = "\<lparr>df_conf_th = Some (0.8 :: real), df_ok_whitelist_global = None, df_ok_whitelist = None\<rparr>"
  let ?s = "[(ascii ''quality'', 0.7 :: real)]"
  have 1: "\<exists>v\<in>set (map snd [(ascii ''clutter'', 0.2 :: real), (ascii ''quality'', 0.9)]). v \<ge> 0.6"
    by (intro bexI[of _ "0.9"]) simp_all
  have 2: "\<not> (\<exists>v\<in>set (map snd [(ascii ''clutter'', 0.2 :: real), (ascii ''quality'', 0.5)]). v \<ge> 0.6)"
    by simp
  have 3: "df_conf_th ?dn = None \<and> th_conf_th ?tn = None" by simp
  have 4: "df_conf_th ?dh = Some 0.8" by simp
  have 5: "df_conf_th ?dn = None \<and> th_conf_th ?th = Some 0.8" by simp
  have 6: "\<exists>v\<in>set (map snd ?s). v \<ge> 0.6" by (intro bexI[of _ "0.7"]) simp_all
  have 7: "\<not> (\<exists>v\<in>set (map snd ?s). v \<ge> 0.8)" by simp
  from 1 score_threshold_stage[of "0.6" "[(ascii ''clutter'', 0.2), (ascii ''quality'', 0.9)]"]
  have a: "score_verdict 0.6 [(ascii ''clutter'', 0.2), (ascii ''quality'', 0.9)] = ascii ''ng''"
    by blast
  from 2 score_threshold_stage[of "0.6" "[(ascii ''clutter'', 0.2), (ascii ''quality'', 0.5)]"]
  have b: "score_verdict 0.6 [(ascii ''clutter'', 0.2), (ascii ''quality'', 0.5)] = ascii ''ok''"
    by blast
  note n0 = score_threshold_stage[where d = ?dn and t = ?tn and sc = ?s]
  from 3 n0 have c: "conf_th ?tn ?dn = 0.6" by blast
  from 3 6 n0 have e: "score_verdict (conf_th ?tn ?dn) ?s = ascii ''ng''" by blast
  note n1 = score_threshold_stage[where d = ?dh and t = ?tn and sc = ?s and x = "0.8"]
  from 4 n1 have f1: "conf_th ?tn ?dh = 0.8" by blast
  from n1 have "score_verdict (conf_th ?tn ?dh) ?s = ascii ''ok''
                  \<longleftrightarrow> \<not> (\<exists>v\<in>set (map snd ?s). v \<ge> conf_th ?tn ?dh)" by blast
  with 7 f1 have f: "score_verdict (conf_th ?tn ?dh) ?s = ascii ''ok''" by simp
  note n2 = score_threshold_stage[where d = ?dn and t = ?th and sc = ?s and y = "0.8"]
  from 5 n2 have g1: "conf_th ?th ?dn = 0.8" by blast
  from n2 have "score_verdict (conf_th ?th ?dn) ?s = ascii ''ok''
                  \<longleftrightarrow> \<not> (\<exists>v\<in>set (map snd ?s). v \<ge> conf_th ?th ?dn)" by blast
  with 7 g1 have g: "score_verdict (conf_th ?th ?dn) ?s = ascii ''ok''" by simp
  from a b c e f g show ?thesis by blast
qed

text \<open>
  Claim C10. The precedence of the configuration for the confidence threshold: when
  \<open>defaults\<close> has \<open>conf_th\<close>, the score stage of \<open>_analyze_one\<close> compares the scores with
  that value and the value in \<open>thresholds\<close> is ignored (changing it changes no verdict);
  the score stage uses the value of \<open>thresholds\<close> when \<open>defaults\<close> lacks the key, and
  0.6 when both lack it.
\<close>

theorem conf_th_precedence:
  "(df_conf_th d = Some x \<longrightarrow>
       conf_th t d = x
       \<and> decide (t\<lparr>th_conf_th := y\<rparr>) d sc cs = decide t d sc cs
       \<and> decide t d sc cs =
           force_recheck_by_text
             (refine_verdict_by_text (score_verdict x sc) cs
                (split_lines (case df_ok_whitelist_global d of Some w \<Rightarrow> w | None \<Rightarrow> [])
                 @ split_lines (case df_ok_whitelist d of Some w \<Rightarrow> w | None \<Rightarrow> [])))
             cs (case th_RECHECK_WHITELIST t of Some ws \<Rightarrow> ws | None \<Rightarrow> []))
   \<and> (df_conf_th d = None \<and> th_conf_th t = Some z \<longrightarrow>
       conf_th t d = z
       \<and> decide t d sc cs =
           force_recheck_by_text
             (refine_verdict_by_text (score_verdict z sc) cs
                (split_lines (case df_ok_whitelist_global d of Some w \<Rightarrow> w | None \<Rightarrow> [])
                 @ split_lines (case df_ok_whitelist d of Some w \<Rightarrow> w | None \<Rightarrow> [])))
             cs (case th_RECHECK_WHITELIST t of Some ws \<Rightarrow> ws | None \<Rightarrow> []))
   \<and> (df_conf_th d = None \<and> th_conf_th t = None \<longrightarrow>
       conf_th t d = 0.6
       \<and> decide t d sc cs =
           force_recheck_by_text
             (refine_verdict_by_text (score_verdict 0.6 sc) cs
                (split_lines (case df_ok_whitelist_global d of Some w \<Rightarrow> w | None \<Rightarrow> [])
                 @ split_lines (case df_ok_whitelist d of Some w \<Rightarrow> w | None \<Rightarrow> [])))
             cs (case th_RECHECK_WHITELIST t of Some ws \<Rightarrow> ws | None \<Rightarrow> []))"
  by (simp add: conf_th_def decide_eq)

text \<open>
  A score of 0.7 with no comments: \<open>defaults\<close> 0.8 against \<open>thresholds\<close> 0.5 gives "ok"
  (0.8 decides); \<open>thresholds\<close> 0.5 alone gives "ng"; 0.8 in \<open>thresholds\<close> alone gives "ok",
  where the built-in 0.6 would give "ng".
\<close>

theorem conf_th_precedence_witness:
  "conf_th \<lparr>th_conf_th = Some 0.5, th_OK_WHITELIST = None, th_RECHECK_WHITELIST = None\<rparr>
     \<lparr>df_conf_th = Some 0.8, df_ok_whitelist_global = None, df_ok_whitelist = None\<rparr> = 0.8
   \<and> conf_th \<lparr>th_conf_th = Some 0.5, th_OK_WHITELIST = None, th_RECHECK_WHITELIST = None\<rparr>
     \<lparr>df_conf_th = None, df_ok_whitelist_global = None, df_ok_whitelist = None\<rparr> = 0.5
   \<and> decide \<lparr>th_conf_th = Some 0.5, th_OK_WHITELIST = None, th_RECHECK_WHITELIST = None\<rparr>
     \<lparr>df_conf_th = Some 0.8, df_ok_whitelist_global = None, df_ok_whitelist = None\<rparr>
     [(ascii ''quality'', 0.7)] [] = ascii ''ok''
   \<and> decide \<lparr>th_conf_th = Some 0.5, th_OK_WHITELIST = None, th_RECHECK_WHITELIST = None\<rparr>
     \<lparr>df_conf_th = None, df_ok_whitelist_global = None, df_ok_whitelist = None\<rparr>
     [(ascii ''quality'', 0.7)] [] = ascii ''ng''
   \<and> decide \<lparr>th_conf_th = Some 0.8, th_OK_WHITELIST = None, th_RECHECK_WHITELIST = None\<rparr>
     \<lparr>df_conf_th = None, df_ok_whitelist_global = None, df_ok_whitelist = None\<rparr>
     [(ascii ''quality'', 0.7)] [] = ascii ''ok''
   \<and> decide \<lparr>th_conf_th = None, th_OK_WHITELIST = None, th_RECHECK_WHITELIST = None\<rparr>
     \<lparr>df_conf_th = None, df_ok_whitelist_global = None, df_ok_whitelist = None\<rparr>
     [(ascii ''quality'', 0.7)] [] = ascii ''ng''"
proof -
  let ?t = "\<lparr>th_conf_th = Some (0.5 :: real), th_OK_WHITELIST = None, th_RECHECK_WHITELIST = None\<rparr>"
  let ?th = "\<lparr>th_conf_th = Some (0.8 :: real), th_OK_WHITELIST = None, th_RECHECK_WHITELIST = None\<rparr>"
  let ?tn = "\<lparr>th_conf_th = None :: real option, th_OK_WHITELIST = None, th_RECHECK_WHITELIST = None\<rparr>"
  let ?da = "\<lparr>df_conf_th = Some (0.8 :: real), df_ok_whitelist_global = None, df_ok_whitelist = None\<rparr>"
  let ?db = "\<lparr>df_conf_th = None :: real option, df_ok_whitelist_global = None, df_ok_whitelist = None\<rparr>"
  let ?s = "[(ascii ''quality'', 0.7 :: real)]"
  have sl: "split_lines [] = []" by (simp add: split_lines_def splitlines_def)
  have stage: "force_recheck_by_text (refine_verdict_by_text v [] []) [] [] = v" for v
    by (simp add: rx_eval)
  have 1: "df_conf_th ?da = Some 0.8" by simp
  have 2: "df_conf_th ?db = None \<and> th_conf_th ?t = Some 0.5" by simp
  have 3: "df_conf_th ?db = None \<and> th_conf_th ?th = Some 0.8" by simp
  have 4: "df_conf_th ?db = None \<and> th_conf_th ?tn = None" by simp
  note n1 = conf_th_precedence[where d = ?da and x = "0.8" and t = ?t and sc = ?s and cs = "[]"]
  note n2 = conf_th_precedence[where d = ?db and z = "0.5" and t = ?t and sc = ?s and cs = "[]"]
  note n3 = conf_th_precedence[where d = ?db and z = "0.8" and t = ?th and sc = ?s and cs = "[]"]
  note n4 = conf_th_precedence[where d = ?db and t = ?tn and sc = ?s and cs = "[]"]
  from 1 n1 have a: "conf_th ?t ?da = 0.8" by blast
  from 2 n2 have b: "conf_th ?t ?db = 0.5" by blast
  from 1 n1 have "decide ?t ?da ?s [] =
      force_recheck_by_text
        (refine_verdict_by_text (score_verdict 0.8 ?s) []
           (split_lines (case df_ok_whitelist_global ?da of Some w \<Rightarrow> w | None \<Rightarrow> [])
            @ split_lines (case df_ok_whitelist ?da of Some w \<Rightarrow> w | None \<Rightarrow> [])))
        [] (case th_RECHECK_WHITELIST ?t of Some ws \<Rightarrow> ws | None \<Rightarrow> [])"
    by blast
  then have c: "decide ?t ?da ?s [] = ascii ''ok''"
    by (simp add: sl stage score_verdict_def)
  from 2 n2 have "decide ?t ?db ?s [] =
      force_recheck_by_text
        (refine_verdict_by_text (score_verdict 0.5 ?s) []
           (split_lines (case df_ok_whitelist_global ?db of Some w \<Rightarrow> w | None \<Rightarrow> [])
            @ split_lines (case df_ok_whitelist ?db of Some w \<Rightarrow> w | None \<Rightarrow> [])))
        [] (case th_RECHECK_WHITELIST ?t of Some ws \<Rightarrow> ws | None \<Rightarrow> [])"
    by blast
  then have e: "decide ?t ?db ?s [] = ascii ''ng''"
    by (simp add: sl stage score_verdict_def)
  from 3 n3 have "decide ?th ?db ?s [] =
      force_recheck_by_text
        (refine_verdict_by_text (score_verdict 0.8 ?s) []
           (split_lines (case df_ok_whitelist_global ?db of Some w \<Rightarrow> w | None \<Rightarrow> [])
            @ split_lines (case df_ok_whitelist ?db of Some w \<Rightarrow> w | None \<Rightarrow> [])))
        [] (case th_RECHECK_WHITELIST ?th of Some ws \<Rightarrow> ws | None \<Rightarrow> [])"
    by blast
  then have f: "decide ?th ?db ?s [] = ascii ''ok''"
    by (simp add: sl stage score_verdict_def)
  from 4 n4 have "decide ?tn ?db ?s [] =
      force_recheck_by_text
        (refine_verdict_by_text (score_verdict 0.6 ?s) []
           (split_lines (case df_ok_whitelist_global ?db of Some w \<Rightarrow> w | None \<Rightarrow> [])
            @ split_lines (case df_ok_whitelist ?db of Some w \<Rightarrow> w | None \<Rightarrow> [])))
        [] (case th_RECHECK_WHITELIST ?tn of Some ws \<Rightarrow> ws | None \<Rightarrow> [])"
    by blast
  then have g: "decide ?tn ?db ?s [] = ascii ''ng''"
    by (simp add: sl stage score_verdict_def)
  from a b c e f g show ?thesis by blast
qed

section \<open>The batch: lemmas\<close>

lemma gather_Inr: "gather xs = Inr rs \<Longrightarrow> xs = map Inr rs"
proof (induction xs arbitrary: rs)
  case Nil
  then show ?case by simp
next
  case (Cons x xs)
  then show ?case
    by (cases x) (auto split: sum.splits)
qed

lemma gather_map_Inr: "gather (map Inr rs) = Inr rs"
  by (induction rs) auto

lemma gather_Inl_iff: "(\<exists>e. gather xs = Inl e) \<longleftrightarrow> (\<exists>e. Inl e \<in> set xs)"
proof (induction xs)
  case Nil
  show ?case by simp
next
  case (Cons x xs)
  then show ?case by (cases x) (auto split: sum.splits)
qed

lemma mset_as_completed: "mset (as_completed env xs) = mset xs"
proof -
  have "mset (as_completed env xs) = image_mset snd (mset (enumerate 0 xs))"
    by (simp add: as_completed_def)
  also have "\<dots> = mset (map snd (enumerate 0 xs))" by (rule mset_map[symmetric])
  also have "\<dots> = mset xs" by (simp only: map_snd_enumerate)
  finally show ?thesis .
qed

lemma set_as_completed: "set (as_completed env xs) = set xs"
  using mset_as_completed[of env xs] by (metis set_mset_mset)

lemma decide_range: "decide t d sc cs \<in> {ascii ''ok'', ascii ''ng'', ascii ''unknown''}"
  by (simp add: decide_eq force_recheck_by_text_eq refine_verdict_by_text_eq score_verdict_def Let_def)

lemma analyze_one_image_Inr:
  fixes r :: ImageResult
  assumes "fst (analyze_one_image env i b nano mini t d) = Inr r"
  shows "index r = i" and "verdict r = decide t d (scores r) (comments r)"
    and "stage r = ascii ''nano''"
  using assms
  by (auto simp: analyze_one_image_def Let_def split: prod.splits sum.splits)

lemma length_submit_all [simp]: "length (submit_all env files nano mini t d) = length files"
  by (simp add: submit_all_def)

lemma nth_submit_all:
  "i < length files \<Longrightarrow>
   submit_all env files nano mini t d ! i = analyze_one_image env i (files ! i) nano mini t d"
  by (simp add: submit_all_def nth_enumerate_eq)

lemma sorted_mset_unique:
  fixes xs ys :: "nat list"
  assumes "sorted xs" "sorted ys" "mset xs = mset ys"
  shows "xs = ys"
proof -
  have "sort xs = ys" using assms by (intro properties_for_sort) simp_all
  then show ?thesis using assms(1) by (simp add: sorted_sort_id)
qed

lemma collected_indices:
  fixes fs :: "(exn + ImageResult) list"
  assumes all: "\<And>i. i < length fs \<Longrightarrow> \<exists>r. fs ! i = Inr r \<and> index r = i"
    and g: "gather (as_completed env fs) = Inr collected"
  shows "map index (sort_key index collected) = [0..<length fs]"
proof -
  have perm: "mset (map Inr collected) = mset fs"
    using gather_Inr[OF g] mset_as_completed[of env fs] by simp
  have ix: "map (\<lambda>x. index (projr x)) fs = [0..<length fs]"
  proof (rule nth_equalityI)
    show "length (map (\<lambda>x. index (projr x)) fs) = length [0..<length fs]" by simp
  next
    fix i assume "i < length (map (\<lambda>x. index (projr x)) fs)"
    then have i: "i < length fs" by simp
    then obtain r where "fs ! i = Inr r" "index r = i" using all by blast
    with i show "map (\<lambda>x. index (projr x)) fs ! i = [0..<length fs] ! i" by simp
  qed
  have "mset (map index collected) = image_mset (\<lambda>x. index (projr x)) (mset (map Inr collected :: (exn + ImageResult) list))"
    by (simp add: image_mset.compositionality comp_def)
  also have "\<dots> = mset (map (\<lambda>x. index (projr x)) fs)"
    unfolding perm by (rule mset_map[symmetric])
  finally have m: "mset (map index collected) = mset [0..<length fs]"
    by (simp only: ix)
  have "mset (map index (sort_key index collected)) = mset [0..<length fs]"
    using m by simp
  moreover have "sorted (map index (sort_key index collected))" by simp
  moreover have "sorted [0..<length fs]" by simp
  ultimately show ?thesis by (rule sorted_mset_unique[rotated 2])
qed


lemma analyze_headless_Inr:
  assumes "analyze_headless env files pn key t d = (Inr (summary, results), logs)"
  shows "\<exists>collected.
           gather (as_completed env (map fst
             (submit_all env files (OpenAIClient_init (ascii ''gpt-5-nano'') (Some key))
                (OpenAIClient_init [] (Some key)) t (setdefault_ok_whitelist_global t d))))
             = Inr collected
           \<and> results = sort_key index collected \<and> summary = summarize results"
  using assms by (auto simp: analyze_headless_def Let_def split: sum.splits)

lemma analyze_headless_logs:
  "snd (analyze_headless env files pn key t d) =
     map snd (submit_all env files (OpenAIClient_init (ascii ''gpt-5-nano'') (Some key))
                (OpenAIClient_init [] (Some key)) t (setdefault_ok_whitelist_global t d))"
  by (auto simp: analyze_headless_def Let_def split: sum.splits)

lemma workers_all_Inr:
  fixes fs :: "(exn + ImageResult) list"
  assumes g: "gather (as_completed env fs) = Inr collected" and i: "i < length fs"
  shows "\<exists>r. fs ! i = Inr r \<and> r \<in> set collected"
proof -
  have "fs ! i \<in> set (as_completed env fs)" using i by (simp add: set_as_completed)
  then have "fs ! i \<in> set (map Inr collected)" using gather_Inr[OF g] by simp
  then show ?thesis by auto
qed

lemma collected_from_workers:
  fixes fs :: "(exn + ImageResult) list"
  assumes g: "gather (as_completed env fs) = Inr collected" and r: "r \<in> set collected"
  shows "\<exists>i<length fs. fs ! i = Inr r"
proof -
  have "Inr r \<in> set (map Inr collected :: (exn + ImageResult) list)" using r by simp
  then have "Inr r \<in> set (as_completed env fs)" using gather_Inr[OF g] by simp
  then have "Inr r \<in> set fs" by (simp add: set_as_completed)
  then show ?thesis by (auto simp: in_set_conv_nth)
qed

lemma count_partition:
  fixes rs :: "ImageResult list"
  assumes "\<forall>r\<in>set rs. verdict r \<in> {ascii ''ok'', ascii ''ng'', ascii ''unknown''}"
  shows "count_where (\<lambda>r. verdict r = ascii ''ok'') rs + count_where (\<lambda>r. verdict r = ascii ''ng'') rs
         + count_where (\<lambda>r. verdict r = ascii ''unknown'') rs = length rs"
  using assms
proof (induction rs)
  case Nil
  show ?case by (simp add: count_where_def)
next
  case (Cons r rs)
  then have "verdict r = ascii ''ok'' \<or> verdict r = ascii ''ng'' \<or> verdict r = ascii ''unknown''"
    by simp
  moreover from Cons have "count_where (\<lambda>r. verdict r = ascii ''ok'') rs
      + count_where (\<lambda>r. verdict r = ascii ''ng'') rs
      + count_where (\<lambda>r. verdict r = ascii ''unknown'') rs = length rs" by simp
  ultimately show ?case
    by (auto simp: count_where_def verdict_literals_distinct)
qed

lemma headless_structure:
  assumes h: "analyze_headless env files pn key t d = (Inr (summary, results), logs)"
  shows "map index results = [0..<length files]"
    and "\<forall>r\<in>set results. \<exists>i<length files. \<exists>lg.
           analyze_one_image env i (files ! i) (OpenAIClient_init (ascii ''gpt-5-nano'') (Some key))
             (OpenAIClient_init [] (Some key)) t (setdefault_ok_whitelist_global t d) = (Inr r, lg)"
    and "summary = summarize results"
proof -
  let ?W = "submit_all env files (OpenAIClient_init (ascii ''gpt-5-nano'') (Some key))
                (OpenAIClient_init [] (Some key)) t (setdefault_ok_whitelist_global t d)"
  let ?fs = "map fst ?W"
  from analyze_headless_Inr[OF h] obtain collected where
    g: "gather (as_completed env ?fs) = Inr collected"
    and res: "results = sort_key index collected" and sm: "summary = summarize results"
    by blast
  show "summary = summarize results" by (rule sm)
  have len: "length ?fs = length files" by simp
  have nth: "?fs ! i = fst (analyze_one_image env i (files ! i)
               (OpenAIClient_init (ascii ''gpt-5-nano'') (Some key))
               (OpenAIClient_init [] (Some key)) t (setdefault_ok_whitelist_global t d))"
    if "i < length files" for i
    using that by (simp add: nth_submit_all)
  have all: "\<exists>r. ?fs ! i = Inr r \<and> index r = i" if "i < length ?fs" for i
  proof -
    from workers_all_Inr[OF g that] obtain r where r: "?fs ! i = Inr r" by blast
    with that nth[of i] have "fst (analyze_one_image env i (files ! i)
               (OpenAIClient_init (ascii ''gpt-5-nano'') (Some key))
               (OpenAIClient_init [] (Some key)) t (setdefault_ok_whitelist_global t d)) = Inr r"
      by simp
    from analyze_one_image_Inr(1)[OF this] r show ?thesis by blast
  qed
  from collected_indices[of ?fs env collected, OF all g]
  show "map index results = [0..<length files]" by (simp add: res)
  show "\<forall>r\<in>set results. \<exists>i<length files. \<exists>lg.
           analyze_one_image env i (files ! i) (OpenAIClient_init (ascii ''gpt-5-nano'') (Some key))
             (OpenAIClient_init [] (Some key)) t (setdefault_ok_whitelist_global t d) = (Inr r, lg)"
  proof
    fix r assume "r \<in> set results"
    then have "r \<in> set collected" by (simp add: res)
    from collected_from_workers[OF g this] obtain i where i: "i < length ?fs" "?fs ! i = Inr r"
      by blast
    with nth[of i] have "fst (analyze_one_image env i (files ! i)
               (OpenAIClient_init (ascii ''gpt-5-nano'') (Some key))
               (OpenAIClient_init [] (Some key)) t (setdefault_ok_whitelist_global t d)) = Inr r"
      by simp
    then show "\<exists>i<length files. \<exists>lg.
           analyze_one_image env i (files ! i) (OpenAIClient_init (ascii ''gpt-5-nano'') (Some key))
             (OpenAIClient_init [] (Some key)) t (setdefault_ok_whitelist_global t d) = (Inr r, lg)"
      using i(1) by (metis len prod.collapse)
  qed
qed


lemma add_evidence_eq:
  "add_evidence r ev =
     map (\<lambda>(k, xs). (k, xs @ (if map_of (presence r) k = Some (PBool True) then [index r] else []))) ev"
  by (auto simp: add_evidence_def)

lemma foldl_add_evidence:
  "foldl (\<lambda>ev r. add_evidence r ev) ev rs =
     map (\<lambda>(k, xs). (k, xs @ map index (filter (\<lambda>r. map_of (presence r) k = Some (PBool True)) rs))) ev"
proof (induction rs arbitrary: ev)
  case Nil
  show ?case by simp
next
  case (Cons r rs)
  have "foldl (\<lambda>ev r. add_evidence r ev) ev (r # rs)
          = foldl (\<lambda>ev r. add_evidence r ev) (add_evidence r ev) rs"
    by simp
  also have "\<dots> = map (\<lambda>(k, xs). (k, xs @ map index
                (filter (\<lambda>r. map_of (presence r) k = Some (PBool True)) rs))) (add_evidence r ev)"
    by (rule Cons.IH)
  also have "\<dots> = map (\<lambda>(k, xs). (k, xs @ map index
                (filter (\<lambda>r. map_of (presence r) k = Some (PBool True)) (r # rs)))) ev"
    by (simp add: add_evidence_eq case_prod_beta)
  finally show ?case .
qed

lemma collect_evidence_eq:
  "collect_evidence rs =
     map (\<lambda>k. (k, map index (filter (\<lambda>r. map_of (presence r) k = Some (PBool True)) rs))) AMENITIES"
  by (simp add: collect_evidence_def foldl_add_evidence comp_def)

lemma filter_by_position:
  fixes rs :: "ImageResult list"
  assumes "map index rs = [0..<length rs]"
  shows "map index (filter Q rs) = filter (\<lambda>i. Q (rs ! i)) [0..<length rs]"
proof -
  have ix: "index (rs ! i) = i" if "i < length rs" for i
  proof -
    have "map index rs ! i = [0..<length rs] ! i" by (simp only: assms)
    with that show ?thesis by simp
  qed
  have "filter Q rs = filter Q (map (\<lambda>i. rs ! i) [0..<length rs])"
    by (simp only: map_nth)
  also have "\<dots> = map (\<lambda>i. rs ! i) (filter (\<lambda>i. Q (rs ! i)) [0..<length rs])"
    by (simp add: filter_map comp_def)
  finally have "map index (filter Q rs)
      = map (\<lambda>i. index (rs ! i)) (filter (\<lambda>i. Q (rs ! i)) [0..<length rs])"
    by (simp add: comp_def)
  also have "\<dots> = map (\<lambda>i. i) (filter (\<lambda>i. Q (rs ! i)) [0..<length rs])"
    by (rule map_cong) (auto simp: ix)
  finally show ?thesis by simp
qed


lemma ascii_keys_distinct:
  "ascii ''labels'' \<noteq> ascii ''scores''" "ascii ''labels'' \<noteq> ascii ''comments''"
  "ascii ''labels'' \<noteq> ascii ''presence''" "ascii ''scores'' \<noteq> ascii ''comments''"
  "ascii ''scores'' \<noteq> ascii ''presence''" "ascii ''comments'' \<noteq> ascii ''presence''"
  "ascii ''scores'' \<noteq> ascii ''labels''" "ascii ''comments'' \<noteq> ascii ''labels''"
  "ascii ''presence'' \<noteq> ascii ''labels''" "ascii ''comments'' \<noteq> ascii ''scores''"
  "ascii ''presence'' \<noteq> ascii ''scores''" "ascii ''presence'' \<noteq> ascii ''comments''"
  by (simp_all add: ascii_def)

lemma normalize_placeholder:
  "normalize_response env (placeholder c) = Inr (PList [], [(ascii ''quality'', 0)], [c], [])"
  by (simp add: normalize_response_def placeholder_def ascii_keys_distinct)

lemma classify_unavailable: "\<not> available nano \<Longrightarrow> classify env nano i = (placeholder DRY_RUN_COMMENT, [])"
  by (simp add: classify_def)

lemma available_init:
  "available (OpenAIClient_init name key) \<longleftrightarrow>
     strip name \<noteq> [] \<and> strip (case key of Some k \<Rightarrow> k | None \<Rightarrow> []) \<noteq> []"
  by (auto simp: available_def OpenAIClient_init_def)

lemma analyze_one_image_unavailable:
  assumes "\<not> available nano"
  shows "analyze_one_image env i b nano mini t d =
     (case load_and_resize env (snd (normalize_blob i b)) of
        Inl e \<Rightarrow> (Inl e, [])
      | Inr data \<Rightarrow>
          (Inr \<lparr> index = i,
                 file_name = fmt04 i @ ascii ''_'' @ basename (fst (normalize_blob i b)),
                 labels = PList [],
                 scores = [(ascii ''quality'', 0)],
                 comments = [DRY_RUN_COMMENT],
                 quality_flags = calc_basic_quality_flags (HAS_CV2 env) (stats_of env data),
                 verdict = decide t d [(ascii ''quality'', 0)] [DRY_RUN_COMMENT],
                 stage = ascii ''nano'',
                 presence = [] \<rparr>, []))"
  by (simp add: analyze_one_image_def classify_unavailable[OF assms] normalize_placeholder Let_def
        split: prod.splits sum.splits)

lemma gather_all_Inr:
  assumes "\<forall>x\<in>set xs. \<exists>r. x = Inr r"
  shows "\<exists>rs. gather xs = Inr rs"
proof (cases "gather xs")
  case (Inl e)
  then have "\<exists>e. Inl e \<in> set xs" using gather_Inl_iff[of xs] by blast
  with assms show ?thesis by auto
next
  case (Inr rs)
  then show ?thesis by blast
qed

lemma headless_returns:
  assumes "\<forall>i<length files. \<exists>r. fst (analyze_one_image env i (files ! i)
             (OpenAIClient_init (ascii ''gpt-5-nano'') (Some key))
             (OpenAIClient_init [] (Some key)) t (setdefault_ok_whitelist_global t d)) = Inr r"
  shows "\<exists>summary results. fst (analyze_headless env files pn key t d) = Inr (summary, results)"
proof -
  let ?W = "submit_all env files (OpenAIClient_init (ascii ''gpt-5-nano'') (Some key))
                (OpenAIClient_init [] (Some key)) t (setdefault_ok_whitelist_global t d)"
  have "\<forall>x\<in>set (map fst ?W). \<exists>r. x = Inr r"
  proof
    fix x assume "x \<in> set (map fst ?W)"
    then obtain i where "i < length files" "x = fst (?W ! i)"
      by (auto simp: in_set_conv_nth)
    with assms show "\<exists>r. x = Inr r" by (simp add: nth_submit_all)
  qed
  then have "\<forall>x\<in>set (as_completed env (map fst ?W)). \<exists>r. x = Inr r"
    by (simp add: set_as_completed)
  from gather_all_Inr[OF this] obtain rs where "gather (as_completed env (map fst ?W)) = Inr rs"
    by blast
  then show ?thesis by (simp add: analyze_headless_def Let_def)
qed

lemma headless_raises:
  assumes "i < length files"
    and "fst (analyze_one_image env i (files ! i)
             (OpenAIClient_init (ascii ''gpt-5-nano'') (Some key))
             (OpenAIClient_init [] (Some key)) t (setdefault_ok_whitelist_global t d)) = Inl e"
  shows "\<exists>e'. fst (analyze_headless env files pn key t d) = Inl e'"
proof -
  let ?W = "submit_all env files (OpenAIClient_init (ascii ''gpt-5-nano'') (Some key))
                (OpenAIClient_init [] (Some key)) t (setdefault_ok_whitelist_global t d)"
  have "map fst ?W ! i = Inl e" using assms by (simp add: nth_submit_all)
  moreover have "i < length (map fst ?W)" using assms(1) by simp
  ultimately have "Inl e \<in> set (map fst ?W)" by (metis nth_mem)
  then have "Inl e \<in> set (as_completed env (map fst ?W))" by (simp only: set_as_completed)
  then have "\<exists>e'. gather (as_completed env (map fst ?W)) = Inl e'"
    using gather_Inl_iff by blast
  then show ?thesis by (auto simp: analyze_headless_def Let_def)
qed


lemma retry_three:
  "retry body 1 =
     (case body 1 of
        Inr v \<Rightarrow> (Inr v, [Attempt 1])
      | Inl e1 \<Rightarrow>
          (case body 2 of
             Inr v \<Rightarrow> (Inr v, [Attempt 1, Sleep 1, Attempt 2])
           | Inl e2 \<Rightarrow> (body 3, [Attempt 1, Sleep 1, Attempt 2, Sleep 2, Attempt 3])))"
proof -
  have 3: "retry body 3 = (body 3, [Attempt 3])"
    by (subst retry.simps) (simp add: stop_after_attempt_def split: sum.splits)
  have 2: "retry body 2 =
      (case body 2 of Inr v \<Rightarrow> (Inr v, [Attempt 2])
       | Inl e2 \<Rightarrow> (body 3, [Attempt 2, Sleep 2, Attempt 3]))"
    using 3 by (subst retry.simps)
      (simp add: stop_after_attempt_def wait_exponential_def numeral_3_eq_3 numeral_2_eq_2
         split: sum.splits)
  show ?thesis
    using 2 by (subst retry.simps)
      (simp add: stop_after_attempt_def wait_exponential_def numeral_2_eq_2 split: sum.splits)
qed

lemma wait_bounds: "1 \<le> wait_exponential 1 1 30 k \<and> wait_exponential 1 1 30 k \<le> 30"
  by (simp add: wait_exponential_def)

lemma wait_doubles:
  assumes "1 \<le> k"
  shows "wait_exponential 1 1 30 (Suc k) = min 30 (2 * wait_exponential 1 1 30 k)"
proof -
  from assms obtain j where k: "k = Suc j" by (cases k) auto
  have p: "(1::nat) \<le> 2 ^ j" by simp
  show ?thesis
    unfolding k wait_exponential_def using p
    by (simp add: max_def min_def)
qed

lemma attempts_le_3:
  "length (filter (\<lambda>ev. \<exists>k. ev = Attempt k) (snd (retry body 1))) \<le> 3"
  by (subst retry_three) (simp split: sum.splits)


lemma decode_failure_propagates:
  assumes "i < length files"
    and "load_and_resize env (snd (normalize_blob i (files ! i))) = Inl e"
  shows "\<exists>e'. fst (analyze_headless env files pn key t d) = Inl e'"
proof (rule headless_raises[OF assms(1)])
  obtain src raw where nb: "normalize_blob i (files ! i) = (src, raw)"
    by (cases "normalize_blob i (files ! i)")
  with assms(2) have "load_and_resize env raw = Inl e" by simp
  then show "fst (analyze_one_image env i (files ! i)
             (OpenAIClient_init (ascii ''gpt-5-nano'') (Some key))
             (OpenAIClient_init [] (Some key)) t (setdefault_ok_whitelist_global t d)) = Inl e"
    by (simp add: analyze_one_image_def nb)
qed


section \<open>The example batch, evaluated\<close>


lemma replicate_numeral: "replicate (numeral n) x = x # replicate (pred_numeral n) x"
  by (simp add: numeral_eq_Suc)

lemmas image_eval = analyze_one_image_def normalize_blob_def fmt04_def digits.simps basename_def
  classify_def available_def analyze_one_def retry.simps stop_after_attempt_def
  wait_exponential_def placeholder_def normalize_response_def decide_def conf_th_def
  score_verdict_def split_lines_def splitlines_def strip_def is_space_def
  calc_basic_quality_flags_def OpenAIClient_init_def setdefault_ok_whitelist_global_def
  example_env_def example_reply_def example_files_def no_thresholds_def no_defaults_def
  DRY_RUN_COMMENT_def NANO_FAILED_def RuntimeError_def AttributeError_def TypeError_def
  ValueError_def Let_def replicate_numeral rx_eval

lemma im0: "analyze_one_image example_env 0 (Pair_blob (ascii ''a.jpg'') [1])
     (OpenAIClient_init (ascii ''gpt-5-nano'') (Some (ascii ''sk-test'')))
     (OpenAIClient_init [] (Some (ascii ''sk-test''))) no_thresholds
     (setdefault_ok_whitelist_global no_thresholds no_defaults)
   = (Inr \<lparr> index = 0, file_name = ascii ''0000_a.jpg'',
             labels = PList [PStr (ascii ''hair_dust'')],
             scores = [(ascii ''hair_dust'', 0.9), (ascii ''quality'', 0)],
             comments = [[0x9AEA, 0x306E, 0x6BDB, 0x304C, 0x4ED8, 0x7740]],
             quality_flags = [ascii ''dark''],
             verdict = ascii ''ng'', stage = ascii ''nano'',
             presence = [(ascii ''key'', PNone), (ascii ''wifi'', PBool False), (ascii ''heater'', PBool True)] \<rparr>,
      [Attempt 1])"
  by (simp add: image_eval)

lemma im1: "analyze_one_image example_env (Suc 0) (Bytes_blob [2])
     (OpenAIClient_init (ascii ''gpt-5-nano'') (Some (ascii ''sk-test'')))
     (OpenAIClient_init [] (Some (ascii ''sk-test''))) no_thresholds
     (setdefault_ok_whitelist_global no_thresholds no_defaults)
   = (Inr \<lparr> index = Suc 0, file_name = ascii ''0001_0001.jpg'',
             labels = PList [],
             scores = [(ascii ''quality'', 0)],
             comments = [NANO_FAILED @ ascii ''timeout''],
             quality_flags = [ascii ''dark''],
             verdict = ascii ''ok'', stage = ascii ''nano'',
             presence = [] \<rparr>,
      [Attempt 1, Sleep 1, Attempt 2, Sleep 2, Attempt 3])"
  by (simp add: image_eval)



lemma submit_example:
  "submit_all example_env example_files
     (OpenAIClient_init (ascii ''gpt-5-nano'') (Some (ascii ''sk-test'')))
     (OpenAIClient_init [] (Some (ascii ''sk-test''))) no_thresholds
     (setdefault_ok_whitelist_global no_thresholds no_defaults)
   = [(Inr result0, [Attempt 1]), (Inr result1, [Attempt 1, Sleep 1, Attempt 2, Sleep 2, Attempt 3])]"
  unfolding result0_def result1_def
  by (simp add: submit_all_def example_files_def im0[unfolded example_files_def] im1)

lemma completes_example: "completes_at example_env = (\<lambda>i. 10 - i)"
  by (simp add: example_env_def)

lemma batch0:
  "analyze_headless example_env example_files [] (ascii ''sk-test'') no_thresholds no_defaults
     = (Inr (summarize [result0, result1], [result0, result1]),
        [[Attempt 1], [Attempt 1, Sleep 1, Attempt 2, Sleep 2, Attempt 3]])"
  by (simp add: analyze_headless_def submit_example as_completed_def completes_example Let_def
        result0_def result1_def)

section \<open>The batch orchestrator: claims C1 and C8\<close>

text \<open>
  Claim C1. Whenever \<open>analyze_headless\<close> returns, the result list has exactly one
  result for each input position: the indices of the results, in list order, are
  0, 1, ... up to the batch size (so every index appears once and the list is ascending);
  every verdict is "ok", "ng" or "unknown"; the three counts of the summary are the
  numbers of results with each verdict, and they add up to the batch size.
\<close>

theorem analyze_headless_results:
  assumes "analyze_headless env files pn key t d = (Inr (summary, results), logs)"
  shows "map index results = [0..<length files]
     \<and> (\<forall>r\<in>set results. verdict r \<in> {ascii ''ok'', ascii ''ng'', ascii ''unknown''})
     \<and> ok summary = length (filter (\<lambda>r. verdict r = ascii ''ok'') results)
     \<and> ng summary = length (filter (\<lambda>r. verdict r = ascii ''ng'') results)
     \<and> unknown summary = length (filter (\<lambda>r. verdict r = ascii ''unknown'') results)
     \<and> ok summary + ng summary + unknown summary = length files"
proof -
  note s = headless_structure[OF assms]
  have v: "\<forall>r\<in>set results. verdict r \<in> {ascii ''ok'', ascii ''ng'', ascii ''unknown''}"
  proof
    fix r assume "r \<in> set results"
    with s(2) obtain i lg where
      "analyze_one_image env i (files ! i) (OpenAIClient_init (ascii ''gpt-5-nano'') (Some key))
         (OpenAIClient_init [] (Some key)) t (setdefault_ok_whitelist_global t d) = (Inr r, lg)"
      by blast
    then have "fst (analyze_one_image env i (files ! i) (OpenAIClient_init (ascii ''gpt-5-nano'') (Some key))
         (OpenAIClient_init [] (Some key)) t (setdefault_ok_whitelist_global t d)) = Inr r"
      by simp
    from analyze_one_image_Inr(2)[OF this]
    show "verdict r \<in> {ascii ''ok'', ascii ''ng'', ascii ''unknown''}"
      using decide_range by simp
  qed
  have len: "length results = length files"
    using s(1) by (metis length_map length_upt minus_nat.diff_0)
  from count_partition[OF v] len
  have "ok summary + ng summary + unknown summary = length files"
    by (simp add: s(3) summarize_def)
  with s(1) v show ?thesis by (simp add: s(3) summarize_def count_where_def)
qed


text \<open>The example batch: it returns, with indices 0 and 1 and counts that add up to 2.\<close>

theorem analyze_headless_results_witness:
  "analyze_headless example_env example_files [] (ascii ''sk-test'') no_thresholds no_defaults
     = (Inr (summarize [result0, result1], [result0, result1]),
        [[Attempt 1], [Attempt 1, Sleep 1, Attempt 2, Sleep 2, Attempt 3]])
   \<and> map index [result0, result1] = [0..<length example_files]
   \<and> ok (summarize [result0, result1]) + ng (summarize [result0, result1])
       + unknown (summarize [result0, result1]) = length example_files"
  using analyze_headless_results[OF batch0] batch0 by blast


text \<open>
  Claim C8. Whenever \<open>analyze_headless\<close> returns, the presence evidence of the summary
  has exactly the keys key, wifi, heater and tv in this order, and the list of an amenity
  holds, in ascending order and once each, exactly the indices of the images whose
  presence field for that amenity is the boolean true; null, false, a missing key and any
  other value contribute nothing.
\<close>

theorem presence_evidence_true_only:
  assumes "analyze_headless env files pn key t d = (Inr (summary, results), logs)"
  shows "map fst (presence_evidence summary)
           = [ascii ''key'', ascii ''wifi'', ascii ''heater'', ascii ''tv'']
     \<and> presence_evidence summary =
         map (\<lambda>k. (k, filter (\<lambda>i. map_of (presence (results ! i)) k = Some (PBool True))
                       [0..<length files])) AMENITIES
     \<and> (\<forall>(k, xs)\<in>set (presence_evidence summary).
          sorted xs \<and> distinct xs
          \<and> (\<forall>i. i \<in> set xs \<longleftrightarrow> i < length files \<and> map_of (presence (results ! i)) k = Some (PBool True)))"
proof -
  note s = headless_structure[OF assms]
  have len: "length results = length files"
    using s(1) by (metis length_map length_upt minus_nat.diff_0)
  have ix: "map index results = [0..<length results]" using s(1) len by simp
  have ev: "presence_evidence summary =
         map (\<lambda>k. (k, filter (\<lambda>i. map_of (presence (results ! i)) k = Some (PBool True))
                       [0..<length files])) AMENITIES"
    by (simp add: s(3) summarize_def collect_evidence_eq filter_by_position[OF ix] len)
  have keys: "map fst (presence_evidence summary)
           = [ascii ''key'', ascii ''wifi'', ascii ''heater'', ascii ''tv'']"
    by (simp add: ev comp_def AMENITIES_def)
  have each: "\<forall>(k, xs)\<in>set (presence_evidence summary).
          sorted xs \<and> distinct xs
          \<and> (\<forall>i. i \<in> set xs \<longleftrightarrow> i < length files \<and> map_of (presence (results ! i)) k = Some (PBool True))"
    unfolding ev by (auto simp: sorted_wrt_filter)
  from keys ev each show ?thesis by blast
qed


text \<open>
  The example batch: the first image has key null, wifi false and heater true, the
  second an empty presence mapping; only heater gets an index.
\<close>

theorem presence_evidence_true_only_witness:
  "analyze_headless example_env example_files [] (ascii ''sk-test'') no_thresholds no_defaults
     = (Inr (summarize [result0, result1], [result0, result1]),
        [[Attempt 1], [Attempt 1, Sleep 1, Attempt 2, Sleep 2, Attempt 3]])
   \<and> presence_evidence (summarize [result0, result1])
       = [(ascii ''key'', []), (ascii ''wifi'', []), (ascii ''heater'', [0]), (ascii ''tv'', [])]"
proof -
  from presence_evidence_true_only[OF batch0]
  have "presence_evidence (summarize [result0, result1]) =
         map (\<lambda>k. (k, filter (\<lambda>i. map_of (presence ([result0, result1] ! i)) k = Some (PBool True))
                       [0..<length example_files])) AMENITIES"
    by blast
  also have "\<dots> = [(ascii ''key'', []), (ascii ''wifi'', []), (ascii ''heater'', [0]), (ascii ''tv'', [])]"
    by (simp add: AMENITIES_def example_files_def result0_def result1_def ascii_def upt_rec)
  finally show ?thesis using batch0 by blast
qed


section \<open>Degraded results: claims C5, C6, C7 and C9\<close>

text \<open>
  Claim C6, as stated, says that without a credential every image gets the placeholder
  response and the batch proceeds normally. It fails on a batch with an image whose bytes
  are no image: the availability gate is never reached for that image, because
  \<open>load_and_resize\<close> raises before it, and the exception is the outcome of the whole
  batch (the defect of claim C5).
\<close>

theorem unavailable_client_decode_counterexample:
  "\<not> available (OpenAIClient_init (ascii ''gpt-5-nano'') (Some []))
   \<and> fst (analyze_headless example_env [Bytes_blob [2], Bytes_blob []] [] []
          no_thresholds no_defaults) = Inl (PyExn ''UnidentifiedImageError'' [])"
proof -
  have na: "\<not> available (OpenAIClient_init (ascii ''gpt-5-nano'') (Some []))"
    by (simp add: available_init strip_def)
  have "fst (analyze_headless example_env [Bytes_blob [2], Bytes_blob []] [] []
          no_thresholds no_defaults) = Inl (PyExn ''UnidentifiedImageError'' [])"
    by (simp add: analyze_headless_def submit_all_def as_completed_def Let_def
          analyze_one_image_unavailable[OF na] normalize_blob_def example_env_def)
  with na show ?thesis by blast
qed

text \<open>
  Claim C6, amended. A client is available exactly when both the stripped key and the
  stripped model name are non-empty. When the client is not available, no call of the
  client is made for any image, and every image whose bytes decode gets a result built
  from the placeholder: empty labels, the single score quality = 0, one explanatory
  comment and an empty presence mapping. For the batch, with no credential: the call log
  of every image is empty, every result that is returned carries the placeholder fields,
  and the batch returns whenever every image decodes.
\<close>

theorem unavailable_client_placeholder:
  "(available (OpenAIClient_init name k) \<longleftrightarrow>
       strip name \<noteq> [] \<and> strip (case k of Some x \<Rightarrow> x | None \<Rightarrow> []) \<noteq> [])
   \<and> (\<not> available nano \<longrightarrow> classify env nano i = (placeholder DRY_RUN_COMMENT, []))
   \<and> normalize_response env (placeholder DRY_RUN_COMMENT)
        = Inr (PList [], [(ascii ''quality'', 0)], [DRY_RUN_COMMENT], [])
   \<and> (\<not> available nano \<and> load_and_resize env (snd (normalize_blob i b)) = Inr data \<longrightarrow>
        (\<exists>r. analyze_one_image env i b nano mini t d = (Inr r, [])
              \<and> index r = i \<and> labels r = PList [] \<and> scores r = [(ascii ''quality'', 0)]
              \<and> comments r = [DRY_RUN_COMMENT] \<and> presence r = []))
   \<and> (strip key = [] \<longrightarrow>
        snd (analyze_headless env files pn key t d) = replicate (length files) []
        \<and> (\<forall>summary results.
              fst (analyze_headless env files pn key t d) = Inr (summary, results) \<longrightarrow>
              length results = length files
              \<and> (\<forall>r\<in>set results. labels r = PList [] \<and> scores r = [(ascii ''quality'', 0)]
                    \<and> comments r = [DRY_RUN_COMMENT] \<and> presence r = []))
        \<and> ((\<forall>j<length files. \<exists>data.
                load_and_resize env (snd (normalize_blob j (files ! j))) = Inr data) \<longrightarrow>
            (\<exists>summary results. fst (analyze_headless env files pn key t d) = Inr (summary, results))))"
proof (intro conjI impI)
  show "available (OpenAIClient_init name k) \<longleftrightarrow>
       strip name \<noteq> [] \<and> strip (case k of Some x \<Rightarrow> x | None \<Rightarrow> []) \<noteq> []"
    by (rule available_init)
  show "classify env nano i = (placeholder DRY_RUN_COMMENT, [])" if "\<not> available nano"
    using that by (rule classify_unavailable)
  show "normalize_response env (placeholder DRY_RUN_COMMENT)
        = Inr (PList [], [(ascii ''quality'', 0)], [DRY_RUN_COMMENT], [])"
    by (rule normalize_placeholder)
  show "\<exists>r. analyze_one_image env i b nano mini t d = (Inr r, [])
              \<and> index r = i \<and> labels r = PList [] \<and> scores r = [(ascii ''quality'', 0)]
              \<and> comments r = [DRY_RUN_COMMENT] \<and> presence r = []"
    if h: "\<not> available nano \<and> load_and_resize env (snd (normalize_blob i b)) = Inr data"
    using h by (simp add: analyze_one_image_unavailable)
next
  assume key: "strip key = []"
  let ?nano = "OpenAIClient_init (ascii ''gpt-5-nano'') (Some key)"
  let ?mini = "OpenAIClient_init [] (Some key)"
  let ?d = "setdefault_ok_whitelist_global t d"
  have na: "\<not> available ?nano" using key by (simp add: available_init)
  note im = analyze_one_image_unavailable[OF na]
  have sndW: "snd (analyze_one_image env j b ?nano ?mini t ?d) = []" for j b
    by (simp add: im split: sum.splits)
  show "snd (analyze_headless env files pn key t d) = replicate (length files) []"
  proof (rule nth_equalityI)
    show "length (snd (analyze_headless env files pn key t d)) = length (replicate (length files) [])"
      by (simp add: analyze_headless_logs)
  next
    fix j assume "j < length (snd (analyze_headless env files pn key t d))"
    then have "j < length files" by (simp add: analyze_headless_logs)
    then show "snd (analyze_headless env files pn key t d) ! j = replicate (length files) [] ! j"
      by (simp add: analyze_headless_logs nth_submit_all sndW)
  qed
  show "\<forall>summary results.
              fst (analyze_headless env files pn key t d) = Inr (summary, results) \<longrightarrow>
              length results = length files
              \<and> (\<forall>r\<in>set results. labels r = PList [] \<and> scores r = [(ascii ''quality'', 0)]
                    \<and> comments r = [DRY_RUN_COMMENT] \<and> presence r = [])"
  proof (intro allI impI)
    fix summary results
    assume "fst (analyze_headless env files pn key t d) = Inr (summary, results)"
    then have h: "analyze_headless env files pn key t d
                    = (Inr (summary, results), snd (analyze_headless env files pn key t d))"
      by (metis prod.collapse)
    note s = headless_structure[OF h]
    have len: "length results = length files"
      using s(1) by (metis length_map length_upt minus_nat.diff_0)
    have "labels r = PList [] \<and> scores r = [(ascii ''quality'', 0)]
                    \<and> comments r = [DRY_RUN_COMMENT] \<and> presence r = []" if "r \<in> set results" for r
    proof -
      from s(2) that obtain j lg where
        "analyze_one_image env j (files ! j) ?nano ?mini t ?d = (Inr r, lg)" by blast
      then show ?thesis unfolding im by (auto split: sum.splits)
    qed
    with len show "length results = length files
              \<and> (\<forall>r\<in>set results. labels r = PList [] \<and> scores r = [(ascii ''quality'', 0)]
                    \<and> comments r = [DRY_RUN_COMMENT] \<and> presence r = [])" by blast
  qed
  show "\<exists>summary results. fst (analyze_headless env files pn key t d) = Inr (summary, results)"
    if dec: "\<forall>j<length files. \<exists>data.
                load_and_resize env (snd (normalize_blob j (files ! j))) = Inr data"
  proof (rule headless_returns, intro allI impI)
    fix j assume "j < length files"
    with dec obtain data where "load_and_resize env (snd (normalize_blob j (files ! j))) = Inr data"
      by blast
    then show "\<exists>r. fst (analyze_one_image env j (files ! j) ?nano ?mini t ?d) = Inr r"
      by (simp add: im)
  qed
qed


text \<open>The example batch without a key: no call is logged and the batch returns.\<close>

theorem unavailable_client_placeholder_witness:
  "strip ([] :: ustr) = []
   \<and> load_and_resize example_env (snd (normalize_blob 0 (example_files ! 0))) = Inr [1]
   \<and> load_and_resize example_env (snd (normalize_blob 1 (example_files ! 1))) = Inr [2]
   \<and> snd (analyze_headless example_env example_files [] [] no_thresholds no_defaults) = [[], []]
   \<and> (\<exists>summary results.
         fst (analyze_headless example_env example_files [] [] no_thresholds no_defaults)
           = Inr (summary, results))"
proof -
  have 1: "strip ([] :: ustr) = []" by (simp add: strip_def)
  have 2: "\<forall>j<length example_files. \<exists>data.
             load_and_resize example_env (snd (normalize_blob j (example_files ! j))) = Inr data"
    by (auto simp: example_files_def example_env_def normalize_blob_def less_Suc_eq)
  note u = unavailable_client_placeholder[where key = "[]" and env = example_env
      and files = example_files and pn = "[]" and t = no_thresholds and d = no_defaults]
  from u 1 have a: "snd (analyze_headless example_env example_files [] [] no_thresholds no_defaults)
                 = replicate (length example_files) []"
    by blast
  from u 1 2 have b: "\<exists>summary results.
         fst (analyze_headless example_env example_files [] [] no_thresholds no_defaults)
           = Inr (summary, results)"
    by blast
  from a have c: "snd (analyze_headless example_env example_files [] [] no_thresholds no_defaults) = [[], []]"
    by (simp add: example_files_def)
  have 3: "load_and_resize example_env (snd (normalize_blob 0 (example_files ! 0))) = Inr [1]"
    by (simp add: example_files_def example_env_def normalize_blob_def)
  have 4: "load_and_resize example_env (snd (normalize_blob 1 (example_files ! 1))) = Inr [2]"
    by (simp add: example_files_def example_env_def normalize_blob_def)
  from 1 3 4 c b show ?thesis by blast
qed


text \<open>
  Claim C7. The call of an available client makes at most three attempts, sleeping 1
  after the first failure and 2 after the second; every wait of the schedule lies
  between 1 and 30, the first is 1 and each later one doubles up to the cap of 30. The
  first successful attempt gives the response; after three failures the last exception
  is what the call raises. \<open>_analyze_one\<close> then catches it: the image still yields a
  result, with empty labels, the single score quality = 0, the one comment
  "nano shippai: " followed by the message of the last exception, and an empty
  presence mapping.
\<close>

theorem retry_policy:
  "(available c \<longrightarrow>
      analyze_one env c i =
        (case chat_completion env i 1 of
           Inr v \<Rightarrow> (Inr v, [Attempt 1])
         | Inl e1 \<Rightarrow>
             (case chat_completion env i 2 of
                Inr v \<Rightarrow> (Inr v, [Attempt 1, Sleep 1, Attempt 2])
              | Inl e2 \<Rightarrow>
                  (chat_completion env i 3, [Attempt 1, Sleep 1, Attempt 2, Sleep 2, Attempt 3]))))
   \<and> length (filter (\<lambda>ev. \<exists>k. ev = Attempt k) (snd (analyze_one env c i))) \<le> 3
   \<and> (\<forall>k. 1 \<le> wait_exponential 1 1 30 k \<and> wait_exponential 1 1 30 k \<le> 30)
   \<and> wait_exponential 1 1 30 1 = 1
   \<and> (\<forall>k\<ge>1. wait_exponential 1 1 30 (Suc k) = min 30 (2 * wait_exponential 1 1 30 k))
   \<and> (available nano \<and> load_and_resize env (snd (normalize_blob i b)) = Inr data
        \<and> chat_completion env i 1 = Inl e1 \<and> chat_completion env i 2 = Inl e2
        \<and> chat_completion env i 3 = Inl e3 \<longrightarrow>
        (\<exists>r. analyze_one_image env i b nano mini t d
                = (Inr r, [Attempt 1, Sleep 1, Attempt 2, Sleep 2, Attempt 3])
              \<and> index r = i \<and> labels r = PList [] \<and> scores r = [(ascii ''quality'', 0)]
              \<and> comments r = [NANO_FAILED @ str_exn e3] \<and> presence r = []))"
proof (intro conjI impI allI)
  show "analyze_one env c i =
        (case chat_completion env i 1 of
           Inr v \<Rightarrow> (Inr v, [Attempt 1])
         | Inl e1 \<Rightarrow>
             (case chat_completion env i 2 of
                Inr v \<Rightarrow> (Inr v, [Attempt 1, Sleep 1, Attempt 2])
              | Inl e2 \<Rightarrow>
                  (chat_completion env i 3, [Attempt 1, Sleep 1, Attempt 2, Sleep 2, Attempt 3])))"
    if "available c"
    unfolding analyze_one_def by (subst retry_three) (simp add: that)
  show "length (filter (\<lambda>ev. \<exists>k. ev = Attempt k) (snd (analyze_one env c i))) \<le> 3"
    unfolding analyze_one_def by (rule attempts_le_3)
  show "1 \<le> wait_exponential 1 1 30 k" for k using wait_bounds by blast
  show "wait_exponential 1 1 30 k \<le> 30" for k using wait_bounds by blast
  show "wait_exponential 1 1 30 1 = 1" by (simp add: wait_exponential_def)
  show "wait_exponential 1 1 30 (Suc k) = min 30 (2 * wait_exponential 1 1 30 k)" if "1 \<le> k" for k
    using that by (rule wait_doubles)
next
  assume h: "available nano \<and> load_and_resize env (snd (normalize_blob i b)) = Inr data
        \<and> chat_completion env i 1 = Inl e1 \<and> chat_completion env i 2 = Inl e2
        \<and> chat_completion env i 3 = Inl e3"
  then have a: "analyze_one env nano i = (Inl e3, [Attempt 1, Sleep 1, Attempt 2, Sleep 2, Attempt 3])"
    unfolding analyze_one_def by (subst retry_three) simp
  have c: "classify env nano i
             = (placeholder (NANO_FAILED @ str_exn e3), [Attempt 1, Sleep 1, Attempt 2, Sleep 2, Attempt 3])"
    using h by (simp add: classify_def a)
  show "\<exists>r. analyze_one_image env i b nano mini t d
                = (Inr r, [Attempt 1, Sleep 1, Attempt 2, Sleep 2, Attempt 3])
              \<and> index r = i \<and> labels r = PList [] \<and> scores r = [(ascii ''quality'', 0)]
              \<and> comments r = [NANO_FAILED @ str_exn e3] \<and> presence r = []"
  proof -
    obtain src raw where nb: "normalize_blob i b = (src, raw)"
      by (cases "normalize_blob i b")
    with h have lr: "load_and_resize env raw = Inr data" by simp
    show ?thesis
      by (simp add: analyze_one_image_def nb lr c normalize_placeholder Let_def)
  qed
qed


text \<open>The second image of the example: three timeouts, and a result all the same.\<close>

theorem retry_policy_witness:
  "available (OpenAIClient_init (ascii ''gpt-5-nano'') (Some (ascii ''sk-test'')))
   \<and> chat_completion example_env (Suc 0) 3 = Inl (PyExn ''APIError'' (ascii ''timeout''))
   \<and> (\<exists>r. analyze_one_image example_env (Suc 0) (Bytes_blob [2])
             (OpenAIClient_init (ascii ''gpt-5-nano'') (Some (ascii ''sk-test'')))
             (OpenAIClient_init [] (Some (ascii ''sk-test''))) no_thresholds no_defaults
           = (Inr r, [Attempt 1, Sleep 1, Attempt 2, Sleep 2, Attempt 3])
         \<and> comments r = [NANO_FAILED @ ascii ''timeout''])"
proof -
  let ?nano = "OpenAIClient_init (ascii ''gpt-5-nano'') (Some (ascii ''sk-test''))"
  let ?e = "PyExn ''APIError'' (ascii ''timeout'')"
  have 1: "available ?nano"
    by (simp add: available_def OpenAIClient_init_def strip_def is_space_def ascii_def)
  have 2: "load_and_resize example_env (snd (normalize_blob (Suc 0) (Bytes_blob [2]))) = Inr [2]"
    by (simp add: example_env_def normalize_blob_def)
  have 3: "chat_completion example_env (Suc 0) k = Inl ?e" for k
    by (simp add: example_env_def)
  from retry_policy[where nano = ?nano and env = example_env and i = "Suc 0" and b = "Bytes_blob [2]"
      and data = "[2]" and ?e1.0 = ?e and ?e2.0 = ?e and ?e3.0 = ?e
      and mini = "OpenAIClient_init [] (Some (ascii ''sk-test''))" and t = no_thresholds
      and d = no_defaults] 1 2 3
  have "\<exists>r. analyze_one_image example_env (Suc 0) (Bytes_blob [2]) ?nano
             (OpenAIClient_init [] (Some (ascii ''sk-test''))) no_thresholds no_defaults
           = (Inr r, [Attempt 1, Sleep 1, Attempt 2, Sleep 2, Attempt 3])
         \<and> index r = Suc 0 \<and> labels r = PList [] \<and> scores r = [(ascii ''quality'', 0)]
         \<and> comments r = [NANO_FAILED @ str_exn ?e] \<and> presence r = []"
    by blast
  then have "\<exists>r. analyze_one_image example_env (Suc 0) (Bytes_blob [2]) ?nano
             (OpenAIClient_init [] (Some (ascii ''sk-test''))) no_thresholds no_defaults
           = (Inr r, [Attempt 1, Sleep 1, Attempt 2, Sleep 2, Attempt 3])
         \<and> comments r = [NANO_FAILED @ ascii ''timeout'']"
    by auto
  with 1 3[of 3] show ?thesis by blast
qed


text \<open>
  Claim C9, as stated, says that an internal error during the flag computation leaves
  an empty flag set. It fails when the error comes after a flag has been appended: with
  OpenCV present and a Laplacian variance of 10, "blur" is appended; if computing the
  mean luminance then raises, the \<open>except\<close> clause passes and the function returns
  \<open>["blur"]\<close>.
\<close>

theorem quality_flags_error_counterexample:
  "calc_basic_quality_flags True
     \<lparr>gs_var = Inr 10, gs_mean = Inl (PyExn ''MemoryError'' []), gs_over = Inr 0\<rparr>
   = [ascii ''blur'']
   \<and> calc_basic_quality_flags True
     \<lparr>gs_var = Inr 10, gs_mean = Inl (PyExn ''MemoryError'' []), gs_over = Inr 0\<rparr> \<noteq> []"
  by (simp add: calc_basic_quality_flags_def)


text \<open>
  Claim C9, amended. The flags are a subset of blur, dark and overexpose. When no step
  raises, "blur" is there exactly when OpenCV is available and the variance is below 80,
  "dark" exactly when the mean luminance is below 60, "overexpose" exactly when the
  fraction of pixels above 240 exceeds 0.40, each independently of the others. An
  internal error is swallowed and never fails the image: the function then returns the
  flags appended before the error, which is the empty list when the first check raises.
\<close>

theorem quality_flags_by_case:
  "set (calc_basic_quality_flags has_cv2 img) \<subseteq> {ascii ''blur'', ascii ''dark'', ascii ''overexpose''}
   \<and> ((has_cv2 \<longrightarrow> gs_var img = Inr v) \<and> gs_mean img = Inr m \<and> gs_over img = Inr ov \<longrightarrow>
        calc_basic_quality_flags has_cv2 img =
          (if has_cv2 \<and> v < 80 then [ascii ''blur''] else [])
          @ (if m < 60 then [ascii ''dark''] else [])
          @ (if ov > 0.40 then [ascii ''overexpose''] else []))
   \<and> (has_cv2 \<and> gs_var img = Inl e \<longrightarrow> calc_basic_quality_flags has_cv2 img = [])
   \<and> ((has_cv2 \<longrightarrow> gs_var img = Inr v) \<and> gs_mean img = Inl e \<longrightarrow>
        calc_basic_quality_flags has_cv2 img = (if has_cv2 \<and> v < 80 then [ascii ''blur''] else []))
   \<and> ((has_cv2 \<longrightarrow> gs_var img = Inr v) \<and> gs_mean img = Inr m \<and> gs_over img = Inl e \<longrightarrow>
        calc_basic_quality_flags has_cv2 img =
          (if has_cv2 \<and> v < 80 then [ascii ''blur''] else [])
          @ (if m < 60 then [ascii ''dark''] else []))"
  by (auto simp: calc_basic_quality_flags_def Let_def split: sum.splits)


theorem quality_flags_by_case_witness:
  "calc_basic_quality_flags True \<lparr>gs_var = Inr 120, gs_mean = Inr 40, gs_over = Inr 0.1\<rparr>
     = [ascii ''dark'']
   \<and> calc_basic_quality_flags False \<lparr>gs_var = Inr 10, gs_mean = Inr 200, gs_over = Inr 0.7\<rparr>
     = [ascii ''overexpose'']"
proof -
  let ?a = "\<lparr>gs_var = Inr 120, gs_mean = Inr 40, gs_over = Inr 0.1\<rparr> :: gray_stats"
  let ?b = "\<lparr>gs_var = Inr 10, gs_mean = Inr 200, gs_over = Inr 0.7\<rparr> :: gray_stats"
  have 1: "(True \<longrightarrow> gs_var ?a = Inr 120) \<and> gs_mean ?a = Inr 40 \<and> gs_over ?a = Inr 0.1" by simp
  have 2: "(False \<longrightarrow> gs_var ?b = Inr 10) \<and> gs_mean ?b = Inr 200 \<and> gs_over ?b = Inr 0.7" by simp
  from 1 quality_flags_by_case[where ?has_cv2.0 = True and img = ?a and v = 120 and m = 40 and ov = "0.1"]
  have a: "calc_basic_quality_flags True ?a =
          (if True \<and> (120::real) < 80 then [ascii ''blur''] else [])
          @ (if (40::real) < 60 then [ascii ''dark''] else [])
          @ (if (0.1::real) > 0.40 then [ascii ''overexpose''] else [])" by blast
  from 2 quality_flags_by_case[where ?has_cv2.0 = False and img = ?b and v = 10 and m = 200 and ov = "0.7"]
  have b: "calc_basic_quality_flags False ?b =
          (if False \<and> (10::real) < 80 then [ascii ''blur''] else [])
          @ (if (200::real) < 60 then [ascii ''dark''] else [])
          @ (if (0.7::real) > 0.40 then [ascii ''overexpose''] else [])" by blast
  from a b show ?thesis by simp
qed


text \<open>
  Claim C5 says that an image whose bytes are no image degrades to a placeholder for
  that image only. \<open>_analyze_one\<close> calls \<open>load_and_resize\<close> outside every \<open>try\<close>, and
  \<open>analyze_headless\<close> calls \<open>fu.result()\<close> outside every \<open>try\<close>: in the batch of an
  undecodable image followed by a good one, the exception of the decoder is the outcome
  of the whole batch, and the result of the good image is lost.
\<close>

theorem decode_failure_aborts_batch:
  "fst (analyze_headless example_env [Bytes_blob [], Bytes_blob [2]] [] (ascii ''sk-test'')
      no_thresholds no_defaults) = Inl (PyExn ''UnidentifiedImageError'' [])"
  using im1 by (simp add: analyze_headless_def submit_all_def as_completed_def
      Let_def analyze_one_image_def[of _ 0] normalize_blob_def example_env_def)

end
